theory Spec2Isabelle
  imports Main "HOL-Library.Word"
begin

unbundle bit_operations_syntax

section \<open>Descriptor checksum\<close>

text \<open>
  Modelled from the spec: \<open>DescriptorChecksum\<close> and \<open>CHECKSUM_CHARSET\<close> of
  \<^verbatim>\<open>./checksum\<close>, which \<^verbatim>\<open>src/index.ts\<close> imports and which is not among the sources.
  Section 4.1 of the specification describes a polynomial rolling checksum over a restricted
  input alphabet, each character mapped through one of several group tables into symbol codes
  that feed a fixed-generator-polynomial accumulator, the final state expanded to 8 characters
  of a 32-symbol charset, byte-exact with the reference descriptor checksum algorithm. The
  definitions below are that reference algorithm: 95 input characters in three groups of 32,
  a degree-8 generator over GF(32) held in 40 bits, and the bech32 charset for the result.
\<close>

definition INPUT_CHARSET :: string where
  "INPUT_CHARSET =
     ''0123456789()[],'' @ [CHR 0x27] @ ''/*abcdefgh@:$%{}'' @
     ''IJKLMNOPQRSTUVWXYZ&+-.;<=>?!^_|~'' @
     ''ijklmnopqrstuvwxyzABCDEFGH`#'' @ [CHR 0x22, CHR 0x5C] @ '' ''"

definition CHECKSUM_CHARSET :: string where
  "CHECKSUM_CHARSET = ''qpzry9x8gf2tvdw0s3jn54khce6mua7l''"

text \<open>\<open>String.prototype.indexOf\<close> for one character: the first position, or nothing.\<close>

fun indexOf :: "string \<Rightarrow> char \<Rightarrow> nat option" where
  "indexOf [] ch = None"
| "indexOf (x # xs) ch = (if x = ch then Some 0 else map_option Suc (indexOf xs ch))"

text \<open>One step of the accumulator: shift in a 5-bit symbol and reduce by the generator.\<close>

definition PolyMod :: "nat \<Rightarrow> nat \<Rightarrow> nat" where
  "PolyMod c val =
     (let c0 = drop_bit 35 c;
          c1 = push_bit 5 (c AND 0x7ffffffff) XOR val;
          c2 = (if c0 AND 1 \<noteq> 0 then c1 XOR 0xf5dee51989 else c1);
          c3 = (if c0 AND 2 \<noteq> 0 then c2 XOR 0xa9fdca3312 else c2);
          c4 = (if c0 AND 4 \<noteq> 0 then c3 XOR 0x1bab10e32d else c3);
          c5 = (if c0 AND 8 \<noteq> 0 then c4 XOR 0x3706b1677a else c4);
          c6 = (if c0 AND 16 \<noteq> 0 then c5 XOR 0x644d626ffd else c5)
      in c6)"

text \<open>
  The body of the loop over the characters, on the state \<open>(c, cls, clscount)\<close>: the
  low five bits of the character's position are fed at once, its group (the position
  divided by 32) is collected into \<open>cls\<close> and fed after every third character.
\<close>

definition checksumStep :: "nat \<Rightarrow> nat \<times> nat \<times> nat \<Rightarrow> nat \<times> nat \<times> nat" where
  "checksumStep pos s =
     (case s of (c, cls, clscount) \<Rightarrow>
        (let c' = PolyMod c (pos AND 31);
             cls' = cls * 3 + drop_bit 5 pos
         in if clscount + 1 = 3 then (PolyMod c' cls', 0, 0)
            else (c', cls', clscount + 1)))"

text \<open>
  The loop itself. A character outside the input alphabet ends the computation (the
  checksum is then the empty string).
\<close>

fun checksumLoop :: "string \<Rightarrow> nat \<times> nat \<times> nat \<Rightarrow> (nat \<times> nat \<times> nat) option" where
  "checksumLoop [] s = Some s"
| "checksumLoop (ch # rest) s =
     (case indexOf INPUT_CHARSET ch of
        None \<Rightarrow> None
      | Some pos \<Rightarrow> checksumLoop rest (checksumStep pos s))"

definition checksumChars :: "nat \<Rightarrow> string" where
  "checksumChars c =
     map (\<lambda>j. CHECKSUM_CHARSET ! (drop_bit (5 * (7 - j)) c AND 31)) [0..<8]"

definition DescriptorChecksum :: "string \<Rightarrow> string" where
  "DescriptorChecksum span =
     (case checksumLoop span (1, 0, 0) of
        None \<Rightarrow> []
      | Some (c, cls, clscount) \<Rightarrow>
          (let c1 = (if clscount > 0 then PolyMod c cls else c);
               c2 = ((\<lambda>x. PolyMod x 0) ^^ 8) c1;
               c3 = c2 XOR 1
           in checksumChars c3))"

text \<open>
  Modelled from the spec: \<open>reChecksum\<close> of \<^verbatim>\<open>./re\<close> (not among the sources), used by
  \<open>evaluate\<close> as \<^verbatim>\<open>expression.match(`(${RE.reChecksum})$`)\<close>: a \<open>#\<close> followed by 8
  characters of the 32-symbol charset, at the end of the text. The result is the matched
  text \<open>mChecksum[0]\<close>.
\<close>

definition matchChecksum :: "string \<Rightarrow> string option" where
  "matchChecksum expression =
     (let m = drop (length expression - 9) expression
      in if 9 \<le> length expression \<and> hd m = CHR ''#''
            \<and> list_all (\<lambda>ch. ch \<in> set CHECKSUM_CHARSET) (tl m)
         then Some m else None)"

section \<open>Evaluation of an expression: checksum and range index\<close>

text \<open>
  The \<open>index\<close> parameter is a JavaScript number. \<open>Integer i\<close> is a number with the
  integral value \<open>i\<close>; \<open>NonInteger\<close> is any number for which \<open>Number.isInteger\<close> is
  false (a fraction, \<open>NaN\<close>, an infinity).
\<close>

datatype number = Integer int | NonInteger

type_synonym Buffer = "8 word list"

text \<open>
  Every \<open>throw\<close> of \<^verbatim>\<open>src/index.ts\<close> is a constructor, with the texts its message
  interpolates; \<open>Collaborator\<close> is an exception raised inside an imported function.
\<close>

datatype error =
    NoChecksum string
  | InvalidChecksum string
  | IndexNotProvided
  | InvalidIndex number
  | CouldNotGetAddress string
  | InvalidAddress string
  | KeyExpressionNotExtracted
  | InvalidExpression string
  | NoRedeemScript string
  | CouldNotGetMiniscript string
  | ScriptTooLarge nat
  | P2SHScriptTooLarge nat
  | TooManyNonPushOps nat
  | MiniscriptOnlyInWsh
  | RedeemScriptNotSet string
  | CouldNotParse string
  | CouldNotDecompile Buffer
  | NotExpandedTimeConstraints string
  | NotExpandedSatisfaction
  | NoValidSatisfaction
  | NoVout string nat
  | LocktimeAlreadySet nat
  | IncompatibleSequence nat nat
  | SegwitUndetermined
  | NoAddressInPayment
  | NoOutputInPayment
  | CannotFinalizeWithoutSignatures
  | Collaborator string

text \<open>
  \<open>Number.prototype.toString\<close> on a non-negative integral number: the decimal numeral.
  (That is what JavaScript prints up to \<open>Number.MAX_SAFE_INTEGER\<close>, where every integer
  is a number of its own.)
\<close>

fun decimal :: "nat \<Rightarrow> string" where
  "decimal n =
     (if n < 10 then [''0123456789'' ! n]
      else decimal (n div 10) @ [''0123456789'' ! (n mod 10)])"

declare decimal.simps [simp del]

definition MAX_SAFE_INTEGER :: int where
  "MAX_SAFE_INTEGER = 9007199254740991"

text \<open>\<open>String.prototype.replaceAll\<close> with a one-character pattern.\<close>

definition replaceAll :: "char \<Rightarrow> string \<Rightarrow> string \<Rightarrow> string" where
  "replaceAll p r s = concat (map (\<lambda>ch. if ch = p then r else [ch]) s)"

text \<open>
  \<open>evaluate\<close> (lines 66 to 108) in its two steps. First (lines 75 to 90) the checksum,
  when the text ends in one, is verified and removed.
\<close>

definition verifyChecksum :: "string \<Rightarrow> bool \<Rightarrow> error + string" where
  "verifyChecksum expression checksumRequired =
     (let mChecksum = matchChecksum expression in
      if mChecksum = None \<and> checksumRequired then Inl (NoChecksum expression)
      else
        (case mChecksum of
           None \<Rightarrow> Inr expression
         | Some m \<Rightarrow>
             (let checksum = drop 1 m;
                  evaluatedExpression = take (length expression - length m) expression
              in if checksum \<noteq> DescriptorChecksum evaluatedExpression
                 then Inl (InvalidChecksum expression)
                 else Inr evaluatedExpression)))"

text \<open>Then (lines 91 to 107) every \<open>*\<close> is replaced by the index.\<close>

definition substituteIndex :: "string \<Rightarrow> number option \<Rightarrow> error + string" where
  "substituteIndex evaluatedExpression index =
     (let mWildcard = filter (\<lambda>ch. ch = CHR ''*'') evaluatedExpression in
      if mWildcard \<noteq> [] \<and> length mWildcard > 0 then
        (case index of
           None \<Rightarrow> Inl IndexNotProvided
         | Some NonInteger \<Rightarrow> Inl (InvalidIndex NonInteger)
         | Some (Integer i) \<Rightarrow>
             if i < 0 then Inl (InvalidIndex (Integer i))
             else Inr (replaceAll (CHR ''*'') (decimal (nat i)) evaluatedExpression))
      else Inr evaluatedExpression)"

definition evaluate :: "string \<Rightarrow> bool \<Rightarrow> number option \<Rightarrow> error + string" where
  "evaluate expression checksumRequired index =
     (case verifyChecksum expression checksumRequired of
        Inl e \<Rightarrow> Inl e
      | Inr evaluatedExpression \<Rightarrow> substituteIndex evaluatedExpression index)"

section \<open>Data of the descriptor engine\<close>

datatype Network = bitcoin | testnet | regtest

text \<open>
  A \<open>Payment\<close> of the script-template library, with the fields that
  \<^verbatim>\<open>src/index.ts\<close> writes or reads; the same shape is the argument and the result of a
  template function.
\<close>

datatype Payment =
  Payment (payment_output: "Buffer option") (payment_address: "string option")
    (payment_pubkey: "Buffer option") (payment_redeem: "Payment option")
    (payment_network: "Network option")

record KeyInfo =
  pubkey :: Buffer
  masterFingerprint :: "Buffer option"
  path :: "string option"

text \<open>
  The expansion map is an object whose values are read in insertion order
  (\<open>Object.values\<close>): an association list.
\<close>

type_synonym ExpansionMap = "(string \<times> KeyInfo) list"

record Preimage =
  digest :: string
  preimage :: string

text \<open>A partial signature: the public key and the signature.\<close>

type_synonym PartialSig = "Buffer \<times> Buffer"

record TimeConstraints =
  nLockTime :: "nat option"
  nSequence :: "nat option"

text \<open>What \<open>satisfyMiniscript\<close> returns: the time constraints and the witness.\<close>

record Satisfaction = TimeConstraints +
  scriptSatisfaction :: "Buffer option"

text \<open>An element of a decompiled script: an opcode number or the data of a push.\<close>

datatype chunk = OP nat | PUSH Buffer

record TxOutput =
  out_script :: Buffer
  out_value :: nat

record Transaction =
  outs :: "TxOutput list"
  getHash :: Buffer
  toBuffer :: Buffer

record Bip32Derivation =
  bip32_masterFingerprint :: Buffer
  bip32_pubkey :: Buffer
  bip32_path :: string

record PsbtInputExtended =
  input_hash :: Buffer
  input_index :: nat
  nonWitnessUtxo :: Buffer
  bip32Derivation :: "Bip32Derivation list option"
  witnessUtxo :: "TxOutput option"
  sequence :: "nat option"
  input_witnessScript :: "Buffer option"
  input_redeemScript :: "Buffer option"

text \<open>The PSBT container, by the two parts of it that \<open>updatePsbt\<close> touches.\<close>

record Psbt =
  locktime :: "nat option"
  inputs :: "PsbtInputExtended list"

section \<open>The imported functions\<close>

text \<open>
  \<^verbatim>\<open>src/index.ts\<close> imports its regular expressions from \<^verbatim>\<open>./re\<close>, the key parser from
  \<^verbatim>\<open>./keyExpressions\<close>, the expander, compiler and satisfier from \<^verbatim>\<open>./miniscript\<close>,
  and the script templates, the address decoder, the script decompiler, the transaction
  parser and the PSBT container from the Bitcoin library. None of them is among the
  sources, so each is a parameter of the model, a field of \<open>collaborators\<close>; a function that
  can throw returns a sum.
  \<^item> An anchored expression with a capture group gives the group of a match (\<open>[]\<close> when
    the group is empty or took no part in the match), or \<open>None\<close> without a match.
  \<^item> \<open>reKeyExp\<close> gives the first match \<open>[0]\<close>.
  \<^item> \<open>numberExceeds\<close> is the JavaScript comparison \<open>op > n\<close> for an operand that is the
    \<open>Buffer\<close> of a push.
  \<^item> \<open>addInputError\<close> and \<open>setLocktimeError\<close> are the checks of the PSBT container.
\<close>

record collaborators =
  reAddrAnchored :: "string \<Rightarrow> string option"
  rePkAnchored :: "string \<Rightarrow> bool"
  rePkhAnchored :: "string \<Rightarrow> bool"
  reShWpkhAnchored :: "string \<Rightarrow> bool"
  reWpkhAnchored :: "string \<Rightarrow> bool"
  reShWshMiniscriptAnchored :: "string \<Rightarrow> string option"
  reShMiniscriptAnchored :: "string \<Rightarrow> string option"
  reWshMiniscriptAnchored :: "string \<Rightarrow> string option"
  reKeyExp :: "string \<Rightarrow> string option"
  toOutputScript :: "string \<Rightarrow> Network \<Rightarrow> error + Buffer"
  p2pk :: "Payment \<Rightarrow> error + Payment"
  p2pkh :: "Payment \<Rightarrow> error + Payment"
  p2sh :: "Payment \<Rightarrow> error + Payment"
  p2wpkh :: "Payment \<Rightarrow> error + Payment"
  p2wsh :: "Payment \<Rightarrow> error + Payment"
  p2tr :: "Payment \<Rightarrow> error + Payment"
  decompile :: "Buffer \<Rightarrow> chunk list option"
  numberExceeds :: "Buffer \<Rightarrow> nat \<Rightarrow> bool"
  globalParseKeyExpression :: "string \<Rightarrow> Network \<Rightarrow> bool \<Rightarrow> error + KeyInfo"
  globalExpandMiniscript :: "string \<Rightarrow> bool \<Rightarrow> Network \<Rightarrow> error + (string \<times> ExpansionMap)"
  miniscript2Script :: "string \<Rightarrow> ExpansionMap \<Rightarrow> error + Buffer"
  satisfyMiniscript ::
    "string \<Rightarrow> ExpansionMap \<Rightarrow> PartialSig list \<Rightarrow> Preimage list
       \<Rightarrow> TimeConstraints option \<Rightarrow> error + Satisfaction"
  fromHex :: "string \<Rightarrow> error + Transaction"
  setLocktimeError :: "Psbt \<Rightarrow> nat \<Rightarrow> error option"
  addInputError :: "Psbt \<Rightarrow> PsbtInputExtended \<Rightarrow> error option"

section \<open>Resource limits\<close>

definition MAX_SCRIPT_ELEMENT_SIZE :: nat where
  "MAX_SCRIPT_ELEMENT_SIZE = 520"

definition MAX_STANDARD_P2WSH_SCRIPT_SIZE :: nat where
  "MAX_STANDARD_P2WSH_SCRIPT_SIZE = 3600"

definition MAX_OPS_PER_SCRIPT :: nat where
  "MAX_OPS_PER_SCRIPT = 201"

text \<open>\<open>bscript.OPS['OP_16']\<close>.\<close>

definition OP_16 :: nat where
  "OP_16 = 96"

text \<open>
  \<open>countNonPushOnlyOPs\<close> (lines 56 to 60): the elements of the decompiled script that
  compare greater than \<open>OP_16\<close>.
\<close>

definition countNonPushOnlyOPs :: "collaborators \<Rightarrow> Buffer \<Rightarrow> error + nat" where
  "countNonPushOnlyOPs co script =
     (case decompile co script of
        None \<Rightarrow> Inl (CouldNotDecompile script)
      | Some decompiled \<Rightarrow>
          Inr (length (filter (\<lambda>op. case op of OP n \<Rightarrow> n > OP_16
                                        | PUSH data \<Rightarrow> numberExceeds co data OP_16)
                         decompiled)))"

section \<open>The descriptor and its constructor\<close>

text \<open>The parameters of the constructor (lines 201 to 217).\<close>

record DescriptorParams =
  expression :: string
  index :: "number option"
  checksumRequired :: bool
  allowMiniscriptInP2SH :: bool
  network :: Network
  preimages :: "Preimage list"
  signersKeyExpressions :: "string list option"

text \<open>
  The private fields of the class (lines 180 to 190); a field that the class leaves
  \<open>undefined\<close> is \<open>None\<close>.
\<close>

record Descriptor =
  priv_payment :: Payment
  priv_preimages :: "Preimage list"
  priv_miniscript :: "string option"
  priv_witnessScript :: "Buffer option"
  priv_redeemScript :: "Buffer option"
  priv_isSegwit :: "bool option"
  priv_expandedExpression :: "string option"
  priv_expandedMiniscript :: "string option"
  priv_expansionMap :: "ExpansionMap option"
  priv_network :: Network
  priv_signersKeyExpressions :: "string list option"

text \<open>The two wrappers of the factory (lines 137 to 177).\<close>

definition parseKeyExpression ::
  "collaborators \<Rightarrow> string \<Rightarrow> Network \<Rightarrow> bool \<Rightarrow> error + KeyInfo" where
  "parseKeyExpression co keyExpression net segwit =
     globalParseKeyExpression co keyExpression net segwit"

definition expandMiniscript ::
  "collaborators \<Rightarrow> string \<Rightarrow> bool \<Rightarrow> Network \<Rightarrow> error + (string \<times> ExpansionMap)" where
  "expandMiniscript co ms segwit net = globalExpandMiniscript co ms segwit net"

text \<open>
  The fields as the constructor leaves them before it dispatches (lines 218 to 221), with
  the payment that the production assigns.
\<close>

definition initial :: "DescriptorParams \<Rightarrow> Payment \<Rightarrow> Descriptor" where
  "initial p pay =
     \<lparr> priv_payment = pay, priv_preimages = preimages p, priv_miniscript = None,
       priv_witnessScript = None, priv_redeemScript = None, priv_isSegwit = None,
       priv_expandedExpression = None, priv_expandedMiniscript = None,
       priv_expansionMap = None, priv_network = network p,
       priv_signersKeyExpressions = signersKeyExpressions p \<rparr>"

definition getRedeemScript :: "Descriptor \<Rightarrow> Buffer option" where
  "getRedeemScript d = priv_redeemScript d"

definition getWitnessScript :: "Descriptor \<Rightarrow> Buffer option" where
  "getWitnessScript d = priv_witnessScript d"

text \<open>\<^verbatim>\<open>try { payment = template({ output, network }); } catch (e) {}\<close>\<close>

definition tryTemplate ::
  "(Payment \<Rightarrow> error + Payment) \<Rightarrow> Payment \<Rightarrow> Payment option \<Rightarrow> Payment option" where
  "tryTemplate template a payment =
     (case template a of Inl e \<Rightarrow> payment | Inr made \<Rightarrow> Some made)"

text \<open>\<open>addr(ADDR)\<close> (lines 234 to 268).\<close>

definition addr_production ::
  "collaborators \<Rightarrow> DescriptorParams \<Rightarrow> string \<Rightarrow> string \<Rightarrow> error + Descriptor" where
  "addr_production co p evaluatedExpression matchedAddress =
     (if matchedAddress = [] then Inl (CouldNotGetAddress evaluatedExpression)
      else
        (case toOutputScript co matchedAddress (network p) of
           Inl e \<Rightarrow> Inl (InvalidAddress matchedAddress)
         | Inr out \<Rightarrow>
             (let a = Payment (Some out) None None None (Some (network p));
                  payment0 = None;
                  payment1 = tryTemplate (p2pkh co) a payment0;
                  payment2 = tryTemplate (p2sh co) a payment1;
                  payment3 = tryTemplate (p2wpkh co) a payment2;
                  payment4 = tryTemplate (p2wsh co) a payment3;
                  payment5 = tryTemplate (p2tr co) a payment4
              in case payment5 of
                   None \<Rightarrow> Inl (InvalidAddress matchedAddress)
                 | Some payment \<Rightarrow> Inr (initial p payment))))"

text \<open>\<open>pk(KEY)\<close> (lines 270 to 288).\<close>

definition pk_production ::
  "collaborators \<Rightarrow> DescriptorParams \<Rightarrow> string \<Rightarrow> error + Descriptor" where
  "pk_production co p evaluatedExpression =
     (case reKeyExp co evaluatedExpression of
        None \<Rightarrow> Inl KeyExpressionNotExtracted
      | Some keyExpression \<Rightarrow>
          if keyExpression = [] then Inl KeyExpressionNotExtracted
          else if evaluatedExpression \<noteq> ''pk('' @ keyExpression @ '')''
          then Inl (InvalidExpression (expression p))
          else
            (case parseKeyExpression co keyExpression (network p) False of
               Inl e \<Rightarrow> Inl e
             | Inr keyInfo \<Rightarrow>
                 (case p2pk co (Payment None None (Some (pubkey keyInfo)) None
                                 (Some (network p))) of
                    Inl e \<Rightarrow> Inl e
                  | Inr payment \<Rightarrow>
                      Inr ((initial p payment)
                             \<lparr> priv_isSegwit := Some False,
                               priv_expandedExpression := Some ''pk(@0)'',
                               priv_expansionMap := Some [(''@0'', keyInfo)] \<rparr>))))"

text \<open>\<open>pkh(KEY)\<close> (lines 290 to 307).\<close>

definition pkh_production ::
  "collaborators \<Rightarrow> DescriptorParams \<Rightarrow> string \<Rightarrow> error + Descriptor" where
  "pkh_production co p evaluatedExpression =
     (case reKeyExp co evaluatedExpression of
        None \<Rightarrow> Inl KeyExpressionNotExtracted
      | Some keyExpression \<Rightarrow>
          if keyExpression = [] then Inl KeyExpressionNotExtracted
          else if evaluatedExpression \<noteq> ''pkh('' @ keyExpression @ '')''
          then Inl (InvalidExpression (expression p))
          else
            (case parseKeyExpression co keyExpression (network p) False of
               Inl e \<Rightarrow> Inl e
             | Inr keyInfo \<Rightarrow>
                 (case p2pkh co (Payment None None (Some (pubkey keyInfo)) None
                                  (Some (network p))) of
                    Inl e \<Rightarrow> Inl e
                  | Inr payment \<Rightarrow>
                      Inr ((initial p payment)
                             \<lparr> priv_isSegwit := Some False,
                               priv_expandedExpression := Some ''pkh(@0)'',
                               priv_expansionMap := Some [(''@0'', keyInfo)] \<rparr>))))"

text \<open>\<open>sh(wpkh(KEY))\<close> (lines 309 to 333).\<close>

definition shwpkh_production ::
  "collaborators \<Rightarrow> DescriptorParams \<Rightarrow> string \<Rightarrow> error + Descriptor" where
  "shwpkh_production co p evaluatedExpression =
     (case reKeyExp co evaluatedExpression of
        None \<Rightarrow> Inl KeyExpressionNotExtracted
      | Some keyExpression \<Rightarrow>
          if keyExpression = [] then Inl KeyExpressionNotExtracted
          else if evaluatedExpression \<noteq> ''sh(wpkh('' @ keyExpression @ ''))''
          then Inl (InvalidExpression (expression p))
          else
            (case parseKeyExpression co keyExpression (network p) True of
               Inl e \<Rightarrow> Inl e
             | Inr keyInfo \<Rightarrow>
                 (case p2wpkh co (Payment None None (Some (pubkey keyInfo)) None
                                   (Some (network p))) of
                    Inl e \<Rightarrow> Inl e
                  | Inr inner \<Rightarrow>
                      (case p2sh co (Payment None None None (Some inner)
                                      (Some (network p))) of
                         Inl e \<Rightarrow> Inl e
                       | Inr payment \<Rightarrow>
                           (case Option.bind (payment_redeem payment) payment_output of
                              None \<Rightarrow> Inl (NoRedeemScript (expression p))
                            | Some redeemScript \<Rightarrow>
                                Inr ((initial p payment)
                                       \<lparr> priv_isSegwit := Some True,
                                         priv_expandedExpression := Some ''sh(wpkh(@0))'',
                                         priv_expansionMap := Some [(''@0'', keyInfo)],
                                         priv_redeemScript := Some redeemScript \<rparr>))))))"

text \<open>\<open>wpkh(KEY)\<close> (lines 335 to 352).\<close>

definition wpkh_production ::
  "collaborators \<Rightarrow> DescriptorParams \<Rightarrow> string \<Rightarrow> error + Descriptor" where
  "wpkh_production co p evaluatedExpression =
     (case reKeyExp co evaluatedExpression of
        None \<Rightarrow> Inl KeyExpressionNotExtracted
      | Some keyExpression \<Rightarrow>
          if keyExpression = [] then Inl KeyExpressionNotExtracted
          else if evaluatedExpression \<noteq> ''wpkh('' @ keyExpression @ '')''
          then Inl (InvalidExpression (expression p))
          else
            (case parseKeyExpression co keyExpression (network p) True of
               Inl e \<Rightarrow> Inl e
             | Inr keyInfo \<Rightarrow>
                 (case p2wpkh co (Payment None None (Some (pubkey keyInfo)) None
                                   (Some (network p))) of
                    Inl e \<Rightarrow> Inl e
                  | Inr payment \<Rightarrow>
                      Inr ((initial p payment)
                             \<lparr> priv_isSegwit := Some True,
                               priv_expandedExpression := Some ''wpkh(@0)'',
                               priv_expansionMap := Some [(''@0'', keyInfo)] \<rparr>))))"

text \<open>\<open>sh(wsh(miniscript))\<close> (lines 354 to 401).\<close>

definition shwsh_production ::
  "collaborators \<Rightarrow> DescriptorParams \<Rightarrow> string \<Rightarrow> string \<Rightarrow> error + Descriptor" where
  "shwsh_production co p evaluatedExpression ms =
     (if ms = [] then Inl (CouldNotGetMiniscript evaluatedExpression)
      else
        (case expandMiniscript co ms True (network p) of
           Inl e \<Rightarrow> Inl e
         | Inr (expanded, expansion) \<Rightarrow>
             (case miniscript2Script co expanded expansion of
                Inl e \<Rightarrow> Inl e
              | Inr scr \<Rightarrow>
                  if length scr > MAX_STANDARD_P2WSH_SCRIPT_SIZE
                  then Inl (ScriptTooLarge (length scr))
                  else
                    (case countNonPushOnlyOPs co scr of
                       Inl e \<Rightarrow> Inl e
                     | Inr nonPushOnlyOps \<Rightarrow>
                         if nonPushOnlyOps > MAX_OPS_PER_SCRIPT
                         then Inl (TooManyNonPushOps nonPushOnlyOps)
                         else
                           (case p2wsh co
                                   (Payment None None None
                                      (Some (Payment (Some scr) None None None
                                               (Some (network p))))
                                      (Some (network p))) of
                              Inl e \<Rightarrow> Inl e
                            | Inr inner \<Rightarrow>
                                (case p2sh co (Payment None None None (Some inner)
                                                (Some (network p))) of
                                   Inl e \<Rightarrow> Inl e
                                 | Inr payment \<Rightarrow>
                                     (case Option.bind (payment_redeem payment)
                                             payment_output of
                                        None \<Rightarrow> Inl (NoRedeemScript (expression p))
                                      | Some redeemScript \<Rightarrow>
                                          Inr ((initial p payment)
                                             \<lparr> priv_isSegwit := Some True,
                                               priv_miniscript := Some ms,
                                               priv_expandedMiniscript := Some expanded,
                                               priv_expansionMap := Some expansion,
                                               priv_expandedExpression :=
                                                 Some (''sh(wsh('' @ expanded @ ''))''),
                                               priv_witnessScript := Some scr,
                                               priv_redeemScript :=
                                                 Some redeemScript \<rparr>))))))))"

text \<open>
  The test of lines 417 to 419: the miniscript begins with one of the top-level expressions
  that are allowed directly within \<open>sh\<close>
  (\<^verbatim>\<open>miniscript.search(/^(pk\(|pkh\(|...)/) === 0\<close>).
\<close>

definition startsWith :: "string \<Rightarrow> string \<Rightarrow> bool" where
  "startsWith s pre = (take (length pre) s = pre)"

definition allowedInSh :: "string \<Rightarrow> bool" where
  "allowedInSh ms =
     list_ex (startsWith ms)
       [''pk('', ''pkh('', ''wpkh('', ''combo('', ''multi('', ''sortedmulti('',
        ''multi_a('', ''sortedmulti_a('']"

text \<open>\<open>sh(miniscript)\<close> (lines 403 to 457).\<close>

definition sh_production ::
  "collaborators \<Rightarrow> DescriptorParams \<Rightarrow> string \<Rightarrow> string \<Rightarrow> error + Descriptor" where
  "sh_production co p evaluatedExpression ms =
     (if ms = [] then Inl (CouldNotGetMiniscript evaluatedExpression)
      else if allowMiniscriptInP2SH p = False \<and> \<not> allowedInSh ms
      then Inl MiniscriptOnlyInWsh
      else
        (case expandMiniscript co ms False (network p) of
           Inl e \<Rightarrow> Inl e
         | Inr (expanded, expansion) \<Rightarrow>
             (case miniscript2Script co expanded expansion of
                Inl e \<Rightarrow> Inl e
              | Inr scr \<Rightarrow>
                  if length scr > MAX_SCRIPT_ELEMENT_SIZE
                  then Inl (P2SHScriptTooLarge (length scr))
                  else
                    (case countNonPushOnlyOPs co scr of
                       Inl e \<Rightarrow> Inl e
                     | Inr nonPushOnlyOps \<Rightarrow>
                         if nonPushOnlyOps > MAX_OPS_PER_SCRIPT
                         then Inl (TooManyNonPushOps nonPushOnlyOps)
                         else
                           (case p2sh co
                                   (Payment None None None
                                      (Some (Payment (Some scr) None None None
                                               (Some (network p))))
                                      (Some (network p))) of
                              Inl e \<Rightarrow> Inl e
                            | Inr payment \<Rightarrow>
                                (let d = (initial p payment)
                                           \<lparr> priv_isSegwit := Some False,
                                             priv_miniscript := Some ms,
                                             priv_expandedMiniscript := Some expanded,
                                             priv_expansionMap := Some expansion,
                                             priv_expandedExpression :=
                                               Some (''sh('' @ expanded @ '')''),
                                             priv_redeemScript := Some scr \<rparr>
                                 in if getRedeemScript d \<noteq> Some scr
                                    then Inl (RedeemScriptNotSet (expression p))
                                    else Inr d))))))"

text \<open>\<open>wsh(miniscript)\<close> (lines 459 to 495).\<close>

definition wsh_production ::
  "collaborators \<Rightarrow> DescriptorParams \<Rightarrow> string \<Rightarrow> string \<Rightarrow> error + Descriptor" where
  "wsh_production co p evaluatedExpression ms =
     (if ms = [] then Inl (CouldNotGetMiniscript evaluatedExpression)
      else
        (case expandMiniscript co ms True (network p) of
           Inl e \<Rightarrow> Inl e
         | Inr (expanded, expansion) \<Rightarrow>
             (case miniscript2Script co expanded expansion of
                Inl e \<Rightarrow> Inl e
              | Inr scr \<Rightarrow>
                  if length scr > MAX_STANDARD_P2WSH_SCRIPT_SIZE
                  then Inl (ScriptTooLarge (length scr))
                  else
                    (case countNonPushOnlyOPs co scr of
                       Inl e \<Rightarrow> Inl e
                     | Inr nonPushOnlyOps \<Rightarrow>
                         if nonPushOnlyOps > MAX_OPS_PER_SCRIPT
                         then Inl (TooManyNonPushOps nonPushOnlyOps)
                         else
                           (case p2wsh co
                                   (Payment None None None
                                      (Some (Payment (Some scr) None None None
                                               (Some (network p))))
                                      (Some (network p))) of
                              Inl e \<Rightarrow> Inl e
                            | Inr payment \<Rightarrow>
                                Inr ((initial p payment)
                                       \<lparr> priv_isSegwit := Some True,
                                         priv_miniscript := Some ms,
                                         priv_expandedMiniscript := Some expanded,
                                         priv_expansionMap := Some expansion,
                                         priv_expandedExpression :=
                                           Some (''wsh('' @ expanded @ '')''),
                                         priv_witnessScript := Some scr \<rparr>))))))"

text \<open>
  The grammar dispatch of the constructor: the conditions of its \<open>if\<close>/\<open>else if\<close> chain
  (lines 234, 270, 290, 309, 335, 354, 403, 459 and the final \<open>else\<close> of line 496), in the
  order of the source. The first expression that matches decides the production; the
  productions with a capture group carry the group.
\<close>

datatype production =
    Addr string | Pk | Pkh | ShWpkh | Wpkh
  | ShWsh string | Sh string | Wsh string | NoProduction

definition dispatch :: "collaborators \<Rightarrow> string \<Rightarrow> production" where
  "dispatch co evaluatedExpression =
     (case reAddrAnchored co evaluatedExpression of
        Some matchedAddress \<Rightarrow> Addr matchedAddress
      | None \<Rightarrow>
          if rePkAnchored co evaluatedExpression then Pk
          else if rePkhAnchored co evaluatedExpression then Pkh
          else if reShWpkhAnchored co evaluatedExpression then ShWpkh
          else if reWpkhAnchored co evaluatedExpression then Wpkh
          else
            (case reShWshMiniscriptAnchored co evaluatedExpression of
               Some ms \<Rightarrow> ShWsh ms
             | None \<Rightarrow>
                 (case reShMiniscriptAnchored co evaluatedExpression of
                    Some ms \<Rightarrow> Sh ms
                  | None \<Rightarrow>
                      (case reWshMiniscriptAnchored co evaluatedExpression of
                         Some ms \<Rightarrow> Wsh ms
                       | None \<Rightarrow> NoProduction))))"

text \<open>
  The constructor (lines 201 to 499): the expression is evaluated, then the body of the
  production that the dispatch selects is run. (The test of line 222, that the expression
  is a string, is the type of \<open>expression\<close> here.)
\<close>

definition Descriptor_constructor ::
  "collaborators \<Rightarrow> DescriptorParams \<Rightarrow> error + Descriptor" where
  "Descriptor_constructor co p =
     (case evaluate (expression p) (checksumRequired p) (index p) of
        Inl e \<Rightarrow> Inl e
      | Inr evaluatedExpression \<Rightarrow>
          (case dispatch co evaluatedExpression of
             Addr matchedAddress \<Rightarrow> addr_production co p evaluatedExpression matchedAddress
           | Pk \<Rightarrow> pk_production co p evaluatedExpression
           | Pkh \<Rightarrow> pkh_production co p evaluatedExpression
           | ShWpkh \<Rightarrow> shwpkh_production co p evaluatedExpression
           | Wpkh \<Rightarrow> wpkh_production co p evaluatedExpression
           | ShWsh ms \<Rightarrow> shwsh_production co p evaluatedExpression ms
           | Sh ms \<Rightarrow> sh_production co p evaluatedExpression ms
           | Wsh ms \<Rightarrow> wsh_production co p evaluatedExpression ms
           | NoProduction \<Rightarrow> Inl (CouldNotParse (expression p))))"

section \<open>The methods\<close>

text \<open>
  The accessors, the satisfaction and \<open>updatePsbt\<close>. (\<open>finalizePsbtInput\<close> and \<open>expand\<close>
  are not used below and are left out.)
\<close>

text \<open>\<open>Buffer.toString('hex')\<close>.\<close>

definition hexDigit :: "nat \<Rightarrow> char" where
  "hexDigit n = ''0123456789abcdef'' ! n"

definition toHex :: "Buffer \<Rightarrow> string" where
  "toHex buf = concat (map (\<lambda>w. [hexDigit (unat w div 16), hexDigit (unat w mod 16)]) buf)"

text \<open>\<open>Array.prototype.map\<close> with a function that can throw: the first exception ends it.\<close>

fun mapThrowing :: "('a \<Rightarrow> error + 'b) \<Rightarrow> 'a list \<Rightarrow> error + 'b list" where
  "mapThrowing f [] = Inr []"
| "mapThrowing f (x # xs) =
     (case f x of
        Inl e \<Rightarrow> Inl e
      | Inr y \<Rightarrow> (case mapThrowing f xs of Inl e \<Rightarrow> Inl e | Inr ys \<Rightarrow> Inr (y # ys)))"

text \<open>
  \<open>#getTimeConstraints\<close> (lines 506 to 546): the satisfier is run with a signature of 64
  zero bytes for every signer and without time constraints; its lock time and sequence
  are the result. Without a miniscript the result is \<open>undefined\<close>.
\<close>

definition getTimeConstraints ::
  "collaborators \<Rightarrow> Descriptor \<Rightarrow> error + TimeConstraints option" where
  "getTimeConstraints co d =
     (case priv_miniscript d of
        None \<Rightarrow> Inr None
      | Some ms \<Rightarrow>
          if ms = [] then Inr None
          else
            (case (priv_expandedMiniscript d, priv_expansionMap d, priv_isSegwit d) of
               (Some expanded, Some expansion, Some segwit) \<Rightarrow>
                 (let signers =
                        (case priv_signersKeyExpressions d of
                           None \<Rightarrow> map (\<lambda>(name, keyInfo). toHex (pubkey keyInfo)) expansion
                         | Some given \<Rightarrow> given)
                  in case mapThrowing
                            (\<lambda>keyExpression.
                               case parseKeyExpression co keyExpression (priv_network d)
                                      segwit of
                                 Inl e \<Rightarrow> Inl e
                               | Inr keyInfo \<Rightarrow> Inr (pubkey keyInfo, replicate 64 0))
                            signers of
                       Inl e \<Rightarrow> Inl e
                     | Inr fakeSignatures \<Rightarrow>
                         (case satisfyMiniscript co expanded expansion fakeSignatures
                                 (priv_preimages d) None of
                            Inl e \<Rightarrow> Inl e
                          | Inr sat \<Rightarrow>
                              Inr (Some \<lparr> nLockTime = nLockTime sat,
                                          nSequence = nSequence sat \<rparr>)))
             | _ \<Rightarrow> Inl (NotExpandedTimeConstraints ms)))"

definition getPayment :: "Descriptor \<Rightarrow> Payment" where
  "getPayment d = priv_payment d"

definition getAddress :: "Descriptor \<Rightarrow> error + string" where
  "getAddress d =
     (case payment_address (priv_payment d) of
        None \<Rightarrow> Inl NoAddressInPayment
      | Some a \<Rightarrow> if a = [] then Inl NoAddressInPayment else Inr a)"

definition getScriptPubKey :: "Descriptor \<Rightarrow> error + Buffer" where
  "getScriptPubKey d =
     (case payment_output (priv_payment d) of
        None \<Rightarrow> Inl NoOutputInPayment
      | Some out \<Rightarrow> Inr out)"

text \<open>\<open>getSequence\<close> and \<open>getLockTime\<close> (lines 592 to 597).\<close>

definition getSequence :: "collaborators \<Rightarrow> Descriptor \<Rightarrow> error + nat option" where
  "getSequence co d =
     (case getTimeConstraints co d of
        Inl e \<Rightarrow> Inl e
      | Inr None \<Rightarrow> Inr None
      | Inr (Some tc) \<Rightarrow> Inr (nSequence tc))"

definition getLockTime :: "collaborators \<Rightarrow> Descriptor \<Rightarrow> error + nat option" where
  "getLockTime co d =
     (case getTimeConstraints co d of
        Inl e \<Rightarrow> Inl e
      | Inr None \<Rightarrow> Inr None
      | Inr (Some tc) \<Rightarrow> Inr (nLockTime tc))"

text \<open>
  \<open>getScriptSatisfaction\<close> (lines 560 to 591): the satisfier is run with the signatures
  given and with the lock time and the sequence of \<open>getLockTime\<close> and \<open>getSequence\<close> as
  its time constraints.
\<close>

definition getScriptSatisfaction ::
  "collaborators \<Rightarrow> Descriptor \<Rightarrow> PartialSig list \<Rightarrow> error + Buffer" where
  "getScriptSatisfaction co d signatures =
     (case (priv_miniscript d, priv_expandedMiniscript d, priv_expansionMap d) of
        (Some ms, Some expanded, Some expansion) \<Rightarrow>
          (case getLockTime co d of
             Inl e \<Rightarrow> Inl e
           | Inr lockTime \<Rightarrow>
               (case getSequence co d of
                  Inl e \<Rightarrow> Inl e
                | Inr seq \<Rightarrow>
                    (case satisfyMiniscript co expanded expansion signatures
                            (priv_preimages d)
                            (Some \<lparr> nLockTime = lockTime, nSequence = seq \<rparr>) of
                       Inl e \<Rightarrow> Inl e
                     | Inr sat \<Rightarrow>
                         (case scriptSatisfaction sat of
                            None \<Rightarrow> Inl NoValidSatisfaction
                          | Some satisfaction \<Rightarrow> Inr satisfaction))))
      | _ \<Rightarrow> Inl NotExpandedSatisfaction)"

definition isSegwit :: "Descriptor \<Rightarrow> error + bool" where
  "isSegwit d =
     (case priv_isSegwit d of None \<Rightarrow> Inl SegwitUndetermined | Some sw \<Rightarrow> Inr sw)"

text \<open>The static method \<open>checksum\<close> (lines 720 to 722).\<close>

definition checksum :: "string \<Rightarrow> string" where
  "checksum e = DescriptorChecksum e"

text \<open>
  \<open>updatePsbt\<close> (lines 615 to 673). The container is passed in and returned; the result
  carries the position of the input that was added.
\<close>

definition bip32DerivationOf :: "ExpansionMap \<Rightarrow> Bip32Derivation list" where
  "bip32DerivationOf expansion =
     map (\<lambda>keyInfo. \<lparr> bip32_masterFingerprint = the (masterFingerprint keyInfo),
                      bip32_pubkey = pubkey keyInfo,
                      bip32_path = the (path keyInfo) \<rparr>)
       (filter (\<lambda>keyInfo. masterFingerprint keyInfo \<noteq> None \<and> path keyInfo \<noteq> None
                            \<and> path keyInfo \<noteq> Some [])
          (map snd expansion))"

definition updatePsbt ::
  "collaborators \<Rightarrow> Descriptor \<Rightarrow> string \<Rightarrow> nat \<Rightarrow> Psbt \<Rightarrow> error + (Psbt \<times> nat)" where
  "updatePsbt co d txHex vout psbt =
     (case fromHex co txHex of
        Inl e \<Rightarrow> Inl e
      | Inr tx \<Rightarrow>
          if \<not> vout < length (outs tx) then Inl (NoVout txHex vout)
          else
            (let out = outs tx ! vout in
             case getLockTime co d of
               Inl e \<Rightarrow> Inl e
             | Inr txLockTime \<Rightarrow>
                 (case (case txLockTime of
                          None \<Rightarrow> Inr psbt
                        | Some lt \<Rightarrow>
                            if locktime psbt \<noteq> Some 0 \<and> locktime psbt \<noteq> None
                            then Inl (LocktimeAlreadySet (the (locktime psbt)))
                            else (case setLocktimeError co psbt lt of
                                    Some e \<Rightarrow> Inl e
                                  | None \<Rightarrow> Inr (psbt\<lparr>locktime := Some lt\<rparr>))) of
                    Inl e \<Rightarrow> Inl e
                  | Inr psbt1 \<Rightarrow>
                      (case getSequence co d of
                         Inl e \<Rightarrow> Inl e
                       | Inr derived \<Rightarrow>
                           (case (case txLockTime of
                                    None \<Rightarrow> Inr derived
                                  | Some lt \<Rightarrow>
                                      (case derived of
                                         None \<Rightarrow> Inr (Some 0xfffffffe)
                                       | Some sq \<Rightarrow>
                                           if sq > 0xfffffffe
                                           then Inl (IncompatibleSequence sq lt)
                                           else Inr (Some sq))) of
                              Inl e \<Rightarrow> Inl e
                            | Inr inputSequence \<Rightarrow>
                                (case isSegwit d of
                                   Inl e \<Rightarrow> Inl e
                                 | Inr segwit \<Rightarrow>
                                     (case (if segwit
                                            then (case getScriptPubKey d of
                                                    Inl e \<Rightarrow> Inl e
                                                  | Inr spk \<Rightarrow>
                                                      Inr (Some \<lparr> out_script = spk,
                                                                  out_value = out_value out \<rparr>))
                                            else Inr None) of
                                        Inl e \<Rightarrow> Inl e
                                      | Inr utxo \<Rightarrow>
                                          (let derivation =
                                                 (case priv_expansionMap d of
                                                    None \<Rightarrow> None
                                                  | Some expansion \<Rightarrow>
                                                      if bip32DerivationOf expansion = []
                                                      then None
                                                      else Some (bip32DerivationOf expansion));
                                               input =
                                                 \<lparr> input_hash = getHash tx,
                                                   input_index = vout,
                                                   nonWitnessUtxo = toBuffer tx,
                                                   bip32Derivation = derivation,
                                                   witnessUtxo = utxo,
                                                   sequence = inputSequence,
                                                   input_witnessScript = getWitnessScript d,
                                                   input_redeemScript = getRedeemScript d \<rparr>
                                           in case addInputError co psbt1 input of
                                                Some e \<Rightarrow> Inl e
                                              | None \<Rightarrow>
                                                  Inr (psbt1\<lparr>inputs := inputs psbt1 @ [input]\<rparr>,
                                                       length (inputs psbt1 @ [input]) - 1)))))))))"

section \<open>Sample collaborators\<close>

text \<open>
  One instance of the collaborators, on which the theorems below are run at concrete
  inputs. Its grammar recognises a production by the text before and after the argument;
  its templates accept an output script by its length and leading bytes; its compiler
  returns the script \<open>scr\<close> and its satisfier the satisfaction \<open>sat\<close>, which it refuses to
  return under time constraints other than its own.
\<close>

definition between :: "string \<Rightarrow> string \<Rightarrow> string \<Rightarrow> string option" where
  "between pre suf s =
     (if length pre + length suf \<le> length s \<and> take (length pre) s = pre
         \<and> drop (length s - length suf) s = suf
      then Some (take (length s - length pre - length suf) (drop (length pre) s))
      else None)"

definition sampleTemplate :: "Buffer \<Rightarrow> nat \<Rightarrow> Payment \<Rightarrow> error + Payment" where
  "sampleTemplate pre n a =
     (case payment_output a of
        Some out \<Rightarrow>
          if length out = n \<and> take (length pre) out = pre
          then Inr (Payment (Some out) (Some ''address'') None None (payment_network a))
          else Inl (Collaborator ''the output is not of this template'')
      | None \<Rightarrow>
          Inr (Payment (Some (pre @ replicate (n - length pre) 0)) (Some ''address'')
                 (payment_pubkey a) (payment_redeem a) (payment_network a)))"

definition sampleKey :: KeyInfo where
  "sampleKey = \<lparr> pubkey = 2 # replicate 32 1, masterFingerprint = None, path = None \<rparr>"

definition sample :: "Buffer \<Rightarrow> Satisfaction \<Rightarrow> collaborators" where
  "sample scr sat =
     \<lparr> reAddrAnchored = between ''addr('' '')'',
       rePkAnchored = (\<lambda>s. between ''pk('' '')'' s \<noteq> None),
       rePkhAnchored = (\<lambda>s. between ''pkh('' '')'' s \<noteq> None),
       reShWpkhAnchored = (\<lambda>s. between ''sh(wpkh('' ''))'' s \<noteq> None),
       reWpkhAnchored = (\<lambda>s. between ''wpkh('' '')'' s \<noteq> None),
       reShWshMiniscriptAnchored = between ''sh(wsh('' ''))'',
       reShMiniscriptAnchored = between ''sh('' '')'',
       reWshMiniscriptAnchored = between ''wsh('' '')'',
       reKeyExp = (\<lambda>s. Some (takeWhile (\<lambda>ch. ch \<noteq> CHR '')'')
                                (rev (takeWhile (\<lambda>ch. ch \<noteq> CHR ''('') (rev s))))),
       toOutputScript =
         (\<lambda>a net. if a = ''A'' then Inr (0 # 0x20 # replicate 32 7)
                   else Inl (Collaborator ''the address does not decode'')),
       p2pk = sampleTemplate [0x21] 35,
       p2pkh = sampleTemplate [0x76, 0xa9, 0x14] 25,
       p2sh = sampleTemplate [0xa9, 0x14] 23,
       p2wpkh = sampleTemplate [0x00, 0x14] 22,
       p2wsh = sampleTemplate [0x00, 0x20] 34,
       p2tr = sampleTemplate [0x51, 0x20] 34,
       decompile =
         (\<lambda>s. if list_all (\<lambda>w. w = 0 \<or> 0x4e < w) s
               then Some (map (\<lambda>w. OP (unat w)) s) else None),
       numberExceeds = (\<lambda>data n. False),
       globalParseKeyExpression = (\<lambda>keyExpression net segwit. Inr sampleKey),
       globalExpandMiniscript = (\<lambda>ms segwit net. Inr (ms, [])),
       miniscript2Script = (\<lambda>expanded expansion. Inr scr),
       satisfyMiniscript =
         (\<lambda>expanded expansion signatures pre tc.
            case tc of
              None \<Rightarrow> Inr sat
            | Some t \<Rightarrow>
                if nLockTime t = nLockTime sat \<and> nSequence t = nSequence sat
                then Inr sat else Inl (Collaborator ''could not be satisfied'')),
       fromHex =
         (\<lambda>h. Inr \<lparr> outs = [\<lparr> out_script = [], out_value = 1000 \<rparr>],
                     getHash = replicate 32 0, toBuffer = [] \<rparr>),
       setLocktimeError = (\<lambda>psbt lt. None),
       addInputError = (\<lambda>psbt input. None) \<rparr>"

text \<open>Parameters of the constructor with the defaults of the source, for a text and an index.\<close>

definition params :: "string \<Rightarrow> number option \<Rightarrow> DescriptorParams" where
  "params e i =
     \<lparr> expression = e, index = i, checksumRequired = False, allowMiniscriptInP2SH = False,
       network = bitcoin, preimages = [], signersKeyExpressions = None \<rparr>"

text \<open>
  Three satisfactions for the sample satisfier: without time lock, with an absolute lock
  time, and with a lock time and a sequence above \<open>0xfffffffe\<close>.
\<close>

definition satPlain :: Satisfaction where
  "satPlain = \<lparr> nLockTime = None, nSequence = None, scriptSatisfaction = Some [1] \<rparr>"

definition satLocked :: Satisfaction where
  "satLocked = \<lparr> nLockTime = Some 500, nSequence = None, scriptSatisfaction = Some [1] \<rparr>"

definition satFinal :: Satisfaction where
  "satFinal =
     \<lparr> nLockTime = Some 500, nSequence = Some 0xffffffff, scriptSatisfaction = Some [1] \<rparr>"

text \<open>
  The descriptor that the constructor makes of \<open>wsh(x)\<close> with the sample collaborators
  when the compiler returns the script of the single opcode \<open>0x61\<close>.
\<close>

definition sampleWsh :: Descriptor where
  "sampleWsh =
     \<lparr> priv_payment =
         Payment (Some (0 # 0x20 # replicate 32 0)) (Some ''address'') None
           (Some (Payment (Some [0x61]) None None None (Some bitcoin))) (Some bitcoin),
       priv_preimages = [], priv_miniscript = Some ''x'',
       priv_witnessScript = Some [0x61], priv_redeemScript = None,
       priv_isSegwit = Some True, priv_expandedExpression = Some ''wsh(x)'',
       priv_expandedMiniscript = Some ''x'', priv_expansionMap = Some [],
       priv_network = bitcoin, priv_signersKeyExpressions = None \<rparr>"

section \<open>Notions of the specification\<close>

text \<open>
  The body of an expression: the text without its checksum (what the specification calls
  the descriptor body).
\<close>

definition bodyOf :: "string \<Rightarrow> string" where
  "bodyOf e = (case matchChecksum e of None \<Rightarrow> e | Some m \<Rightarrow> take (length e - length m) e)"

text \<open>The number that a decimal numeral denotes.\<close>

definition digitValue :: "char \<Rightarrow> nat" where
  "digitValue ch = of_char ch - 48"

definition numeralValue :: "string \<Rightarrow> nat" where
  "numeralValue s = foldl (\<lambda>acc ch. 10 * acc + digitValue ch) 0 s"

text \<open>
  The segments of a text between the occurrences of a character, and a list of segments
  joined by a text: two bodies are identical except at the wildcard positions when they are
  the same segments joined by two texts.
\<close>

fun splitOn :: "char \<Rightarrow> string \<Rightarrow> string list" where
  "splitOn c [] = [[]]"
| "splitOn c (x # xs) =
     (if x = c then [] # splitOn c xs
      else (case splitOn c xs of [] \<Rightarrow> [[x]] | seg # segs \<Rightarrow> (x # seg) # segs))"

fun joinWith :: "string \<Rightarrow> string list \<Rightarrow> string" where
  "joinWith r [] = []"
| "joinWith r [seg] = seg"
| "joinWith r (seg # next # segs) = seg @ r @ joinWith r (next # segs)"





text \<open>
  The part of the accumulator step that the top five bits of the state select: the
  multiples of the generator that reduce the state after the shift.
\<close>

definition feedback :: "nat \<Rightarrow> nat" where
  "feedback c =
     (if bit c 35 then 0xf5dee51989 else 0) XOR (if bit c 36 then 0xa9fdca3312 else 0)
     XOR (if bit c 37 then 0x1bab10e32d else 0) XOR (if bit c 38 then 0x3706b1677a else 0)
     XOR (if bit c 39 then 0x644d626ffd else 0)"

text \<open>
  The end of \<open>DescriptorChecksum\<close> on the state that the loop leaves: the last group, if
  one is open, the eight zero symbols and the final bit.
\<close>

definition finish :: "nat \<times> nat \<times> nat \<Rightarrow> nat" where
  "finish s =
     (case s of (c, cls, clscount) \<Rightarrow>
        ((\<lambda>x. PolyMod x 0) ^^ 8) (if clscount > 0 then PolyMod c cls else c) XOR 1)"

text \<open>The states that the loop reaches: 40 bits, and a group of fewer than three characters.\<close>

definition reachable :: "nat \<times> nat \<times> nat \<Rightarrow> bool" where
  "reachable s = (case s of (c, cls, clscount) \<Rightarrow> c < 2 ^ 40 \<and> clscount < 3 \<and> cls < 3 ^ clscount)"

text \<open>
  Two states of the loop after the same number of characters that can no longer give the
  same checksum: either the accumulators differ and the open groups agree, or the open
  groups differ and the accumulators differ at most in the symbols fed since the group was
  opened.
\<close>

definition diverged :: "nat \<times> nat \<times> nat \<Rightarrow> nat \<times> nat \<times> nat \<Rightarrow> bool" where
  "diverged s t =
     (case s of (c, cls, n) \<Rightarrow> case t of (c', cls', n') \<Rightarrow>
        n = n' \<and> reachable s \<and> reachable t \<and>
        ((c \<noteq> c' \<and> cls = cls') \<or> (cls \<noteq> cls' \<and> c XOR c' < 2 ^ (5 * n))))"


section \<open>Evaluation: wildcard and index\<close>

lemma splitOn_nonempty: "splitOn c s \<noteq> []"
  by (induction s) (auto split: list.splits)

lemma replaceAll_joinWith: "replaceAll c r s = joinWith r (splitOn c s)"
proof (induction s)
  case Nil
  then show ?case by (simp add: replaceAll_def)
next
  case (Cons x xs)
  obtain seg segs where sp: "splitOn c xs = seg # segs"
    using splitOn_nonempty[of c xs] by (cases "splitOn c xs") auto
  from Cons sp show ?case
    by (cases segs) (auto simp: replaceAll_def)
qed

lemma splitOn_segments: "seg \<in> set (splitOn c s) \<Longrightarrow> c \<notin> set seg"
proof (induction s arbitrary: seg)
  case Nil
  then show ?case by simp
next
  case (Cons x xs)
  then show ?case
    by (cases "splitOn c xs") (auto split: if_splits)
qed

lemma digit_chars: "n < 10 \<Longrightarrow> ''0123456789'' ! n \<in> set ''0123456789''"
  by (rule nth_mem) simp

lemma decimal_digits: "set (decimal n) \<subseteq> set ''0123456789''"
proof (induction n rule: decimal.induct)
  case (1 n)
  show ?case
  proof (cases "n < 10")
    case True
    then show ?thesis using digit_chars[of n] by (subst decimal.simps) simp
  next
    case False
    have "n mod 10 < 10" by simp
    from digit_chars[OF this] 1[OF False] False show ?thesis
      by (subst decimal.simps) simp
  qed
qed

lemma digitValue_digit: "n < 10 \<Longrightarrow> digitValue (''0123456789'' ! n) = n"
proof -
  assume "n < 10"
  then have "n \<in> {0,1,2,3,4,5,6,7,8,9}" by auto
  then show ?thesis by (auto simp: digitValue_def)
qed

lemma numeralValue_snoc: "numeralValue (s @ [ch]) = 10 * numeralValue s + digitValue ch"
  by (simp add: numeralValue_def)

lemma numeralValue_decimal: "numeralValue (decimal n) = n"
proof (induction n rule: decimal.induct)
  case (1 n)
  show ?case
  proof (cases "n < 10")
    case True
    then show ?thesis
      by (subst decimal.simps) (simp add: numeralValue_def digitValue_digit)
  next
    case False
    with 1[OF False] show ?thesis
      by (subst decimal.simps) (simp add: numeralValue_snoc digitValue_digit)
  qed
qed

lemma star_notin_decimal: "CHR ''*'' \<notin> set (decimal n)"
  using decimal_digits[of n] by auto

lemma matchChecksum_Some:
  assumes "matchChecksum e = Some m"
  shows "9 \<le> length e" and "m = drop (length e - 9) e" and "length m = 9"
    and "hd m = CHR ''#''" and "set (tl m) \<subseteq> set CHECKSUM_CHARSET"
  using assms
  by (auto simp: matchChecksum_def Let_def list_all_iff split: if_splits)

lemma star_notin_CHECKSUM_CHARSET: "CHR ''*'' \<notin> set CHECKSUM_CHARSET"
  by (simp add: CHECKSUM_CHARSET_def)

lemma star_notin_match:
  assumes "matchChecksum e = Some m"
  shows "CHR ''*'' \<notin> set m"
proof -
  from matchChecksum_Some[OF assms] have l: "length m = 9" and h: "hd m = CHR ''#''"
    and t: "set (tl m) \<subseteq> set CHECKSUM_CHARSET" by auto
  from l have "m \<noteq> []" by auto
  then have "set m = insert (hd m) (set (tl m))" by (cases m) auto
  with h t star_notin_CHECKSUM_CHARSET show ?thesis by auto
qed

lemma star_in_body:
  assumes "CHR ''*'' \<in> set e" and "matchChecksum e = Some m"
  shows "CHR ''*'' \<in> set (take (length e - length m) e)"
proof -
  from matchChecksum_Some[OF assms(2)] have m: "m = drop (length e - 9) e" and l: "length m = 9"
    by auto
  have "set e = set (take (length e - 9) e) \<union> set (drop (length e - 9) e)"
    by (metis append_take_drop_id set_append)
  with assms(1) star_notin_match[OF assms(2)] m l show ?thesis by auto
qed

lemma verifyChecksum_cases:
  "verifyChecksum e r = Inl (NoChecksum e) \<or> verifyChecksum e r = Inl (InvalidChecksum e)
   \<or> verifyChecksum e r = Inr (bodyOf e)"
  by (auto simp: verifyChecksum_def bodyOf_def Let_def split: option.splits)

lemma verifyChecksum_keeps_star:
  assumes "CHR ''*'' \<in> set e" and "verifyChecksum e r = Inr b"
  shows "CHR ''*'' \<in> set b"
  using assms star_in_body[of e]
  by (auto simp: verifyChecksum_def Let_def split: option.splits if_splits)

lemma substituteIndex_star:
  assumes "CHR ''*'' \<in> set b"
  shows "substituteIndex b None = Inl IndexNotProvided"
    and "substituteIndex b (Some NonInteger) = Inl (InvalidIndex NonInteger)"
    and "i < 0 \<Longrightarrow> substituteIndex b (Some (Integer i)) = Inl (InvalidIndex (Integer i))"
    and "0 \<le> i \<Longrightarrow> substituteIndex b (Some (Integer i))
           = Inr (replaceAll (CHR ''*'') (decimal (nat i)) b)"
  using assms by (auto simp: substituteIndex_def Let_def filter_empty_conv)

lemma constructor_evaluate_error:
  "isl (evaluate (expression p) (checksumRequired p) (index p))
   \<Longrightarrow> isl (Descriptor_constructor co p)"
  by (auto simp: Descriptor_constructor_def split: sum.splits)

text \<open>
  Claim C7. For an expression that contains the wildcard \<open>*\<close>, construction throws when
  the index is omitted, when it is not an integer and when it is negative. A non-negative
  integer index is accepted: the evaluation then throws exactly when the checksum
  verification does, and with its error.
\<close>

theorem wildcard_needs_index:
  assumes "CHR ''*'' \<in> set (expression p)"
  shows "(index p = None \<longrightarrow> isl (Descriptor_constructor co p))
       \<and> (index p = Some NonInteger \<longrightarrow> isl (Descriptor_constructor co p))
       \<and> (\<forall>i. index p = Some (Integer i) \<and> i < 0 \<longrightarrow> isl (Descriptor_constructor co p))
       \<and> (\<forall>i. index p = Some (Integer i) \<and> 0 \<le> i \<longrightarrow>
            (\<forall>e. evaluate (expression p) (checksumRequired p) (index p) = Inl e
                  \<longleftrightarrow> verifyChecksum (expression p) (checksumRequired p) = Inl e))"
  using assms verifyChecksum_keeps_star[OF assms] substituteIndex_star
    constructor_evaluate_error[of p co]
  by (auto simp: evaluate_def split: sum.splits)

lemma verify_wpkh: "verifyChecksum ''wpkh(K/*)'' False = Inr ''wpkh(K/*)''"
  by (simp add: verifyChecksum_def matchChecksum_def)

theorem wildcard_needs_index_witness:
  "isl (Descriptor_constructor (sample [] satPlain) (params ''wpkh(K/*)'' None))
   \<and> isl (Descriptor_constructor (sample [] satPlain) (params ''wpkh(K/*)'' (Some NonInteger)))
   \<and> isl (Descriptor_constructor (sample [] satPlain) (params ''wpkh(K/*)'' (Some (Integer (- 1)))))
   \<and> \<not> isl (evaluate ''wpkh(K/*)'' False (Some (Integer 7)))"
  using wildcard_needs_index[of "params ''wpkh(K/*)'' None" "sample [] satPlain"]
    wildcard_needs_index[of "params ''wpkh(K/*)'' (Some NonInteger)" "sample [] satPlain"]
    wildcard_needs_index[of "params ''wpkh(K/*)'' (Some (Integer (- 1)))" "sample [] satPlain"]
    wildcard_needs_index[of "params ''wpkh(K/*)'' (Some (Integer 7))" "sample [] satPlain"]
  by (simp add: params_def verify_wpkh isl_def)

text \<open>
  Claim C8. For a wildcard expression whose checksum verification passes and an index
  \<open>i\<close> with \<open>0 \<le> i\<close> (and \<open>i + 1\<close> within the integers that a JavaScript number
  holds exactly), the evaluation replaces every \<open>*\<close> of the body by the decimal numeral of
  \<open>i\<close>. The results at \<open>i\<close> and at \<open>i + 1\<close> are the same segments of the body, free of
  \<open>*\<close>, joined by the numeral of \<open>i\<close> and by the numeral of \<open>i + 1\<close>.
\<close>

theorem range_substitution:
  assumes "0 \<le> i" and "i + 1 \<le> MAX_SAFE_INTEGER" and "CHR ''*'' \<in> set e"
    and "\<not> isl (verifyChecksum e r)"
  shows "evaluate e r (Some (Integer i)) = Inr (replaceAll (CHR ''*'') (decimal (nat i)) (bodyOf e))
       \<and> numeralValue (decimal (nat i)) = nat i
       \<and> evaluate e r (Some (Integer i))
           = Inr (joinWith (decimal (nat i)) (splitOn (CHR ''*'') (bodyOf e)))
       \<and> evaluate e r (Some (Integer (i + 1)))
           = Inr (joinWith (decimal (nat (i + 1))) (splitOn (CHR ''*'') (bodyOf e)))
       \<and> (\<forall>seg \<in> set (splitOn (CHR ''*'') (bodyOf e)). CHR ''*'' \<notin> set seg)
       \<and> CHR ''*'' \<notin> set (decimal (nat i)) \<and> CHR ''*'' \<notin> set (decimal (nat (i + 1)))"
proof -
  from assms(4) verifyChecksum_cases[of e r] have v: "verifyChecksum e r = Inr (bodyOf e)"
    by auto
  from verifyChecksum_keeps_star[OF assms(3) v] have s: "CHR ''*'' \<in> set (bodyOf e)" .
  from assms(1) have i1: "0 \<le> i + 1" by simp
  show ?thesis
    using substituteIndex_star(4)[OF s assms(1)] substituteIndex_star(4)[OF s i1] v
      splitOn_segments[of _ "CHR ''*''" "bodyOf e"]
    by (auto simp: evaluate_def replaceAll_joinWith numeralValue_decimal star_notin_decimal)
qed

lemma body_wpkh: "bodyOf ''wpkh(K/*)'' = ''wpkh(K/*)''"
  by (simp add: bodyOf_def matchChecksum_def)

theorem range_substitution_witness:
  "evaluate ''wpkh(K/*)'' False (Some (Integer 9)) = Inr ''wpkh(K/9)''
   \<and> evaluate ''wpkh(K/*)'' False (Some (Integer 10)) = Inr ''wpkh(K/10)''
   \<and> splitOn (CHR ''*'') ''wpkh(K/*)'' = [''wpkh(K/'', '')'']"
  using range_substitution[of 9 "''wpkh(K/*)''" False]
  by (simp add: MAX_SAFE_INTEGER_def verify_wpkh body_wpkh decimal.simps replaceAll_def)

section \<open>The address production\<close>




lemma sample_fields:
  "reAddrAnchored (sample scr sat) = between ''addr('' '')''"
  "rePkAnchored (sample scr sat) = (\<lambda>s. between ''pk('' '')'' s \<noteq> None)"
  "rePkhAnchored (sample scr sat) = (\<lambda>s. between ''pkh('' '')'' s \<noteq> None)"
  "reShWpkhAnchored (sample scr sat) = (\<lambda>s. between ''sh(wpkh('' ''))'' s \<noteq> None)"
  "reWpkhAnchored (sample scr sat) = (\<lambda>s. between ''wpkh('' '')'' s \<noteq> None)"
  "reShWshMiniscriptAnchored (sample scr sat) = between ''sh(wsh('' ''))''"
  "reShMiniscriptAnchored (sample scr sat) = between ''sh('' '')''"
  "reWshMiniscriptAnchored (sample scr sat) = between ''wsh('' '')''"
  "toOutputScript (sample scr sat) ''A'' net = Inr (0 # 0x20 # replicate 32 7)"
  "p2pk (sample scr sat) = sampleTemplate [0x21] 35"
  "p2pkh (sample scr sat) = sampleTemplate [0x76, 0xa9, 0x14] 25"
  "p2sh (sample scr sat) = sampleTemplate [0xa9, 0x14] 23"
  "p2wpkh (sample scr sat) = sampleTemplate [0x00, 0x14] 22"
  "p2wsh (sample scr sat) = sampleTemplate [0x00, 0x20] 34"
  "p2tr (sample scr sat) = sampleTemplate [0x51, 0x20] 34"
  "globalParseKeyExpression (sample scr sat) ke net sw = Inr sampleKey"
  "globalExpandMiniscript (sample scr sat) ms sw net = Inr (ms, [])"
  "miniscript2Script (sample scr sat) expanded expansion = Inr scr"
  "satisfyMiniscript (sample scr sat) expanded expansion sigs pre None = Inr sat"
  "satisfyMiniscript (sample scr sat) expanded expansion sigs pre (Some t)
     = (if nLockTime t = nLockTime sat \<and> nSequence t = nSequence sat
        then Inr sat else Inl (Collaborator ''could not be satisfied''))"
  "numberExceeds (sample scr sat) data n = False"
  "decompile (sample scr sat) s
     = (if list_all (\<lambda>w. w = 0 \<or> 0x4e < w) s then Some (map (\<lambda>w. OP (unat w)) s)
        else None)"
  "fromHex (sample scr sat) h
     = Inr \<lparr> outs = [\<lparr> out_script = [], out_value = 1000 \<rparr>],
             getHash = replicate 32 0, toBuffer = [] \<rparr>"
  "setLocktimeError (sample scr sat) psbt lt = None"
  "addInputError (sample scr sat) psbt input = None"
  by (simp_all add: sample_def)

lemma evaluate_addrA: "evaluate ''addr(A)'' False None = Inr ''addr(A)''"
  by (simp add: evaluate_def verifyChecksum_def matchChecksum_def substituteIndex_def)

lemma dispatch_addrA: "dispatch (sample scr sat) ''addr(A)'' = Addr ''A''"
  by (simp add: dispatch_def sample_def between_def)


section \<open>The miniscript productions and the resource limits\<close>








lemma evaluate_sample_texts:
  "evaluate ''wsh(x)'' False None = Inr ''wsh(x)''"
  "evaluate ''sh(wsh(x))'' False None = Inr ''sh(wsh(x))''"
  "evaluate ''sh(x)'' False None = Inr ''sh(x)''"
  "evaluate ''sh(pk(K))'' False None = Inr ''sh(pk(K))''"
  by (simp_all add: evaluate_def verifyChecksum_def matchChecksum_def substituteIndex_def)

lemma dispatch_sample_texts:
  "dispatch (sample scr sat) ''wsh(x)'' = Wsh ''x''"
  "dispatch (sample scr sat) ''sh(wsh(x))'' = ShWsh ''x''"
  "dispatch (sample scr sat) ''sh(x)'' = Sh ''x''"
  "dispatch (sample scr sat) ''sh(pk(K))'' = Sh ''pk(K)''"
  by (simp_all add: dispatch_def sample_fields between_def)


lemma count_sample_nops: "countNonPushOnlyOPs (sample scr sat) (replicate k 0x61) = Inr k"
  by (simp add: countNonPushOnlyOPs_def sample_fields list_all_iff OP_16_def)









section \<open>Satisfaction and time constraints\<close>

lemma key_productions_no_miniscript:
  "pk_production co p e = Inr d \<Longrightarrow> priv_miniscript d = None"
  "pkh_production co p e = Inr d \<Longrightarrow> priv_miniscript d = None"
  "shwpkh_production co p e = Inr d \<Longrightarrow> priv_miniscript d = None"
  "wpkh_production co p e = Inr d \<Longrightarrow> priv_miniscript d = None"
  "addr_production co p e a = Inr d \<Longrightarrow> priv_miniscript d = None"
  by (auto simp: pk_production_def pkh_production_def shwpkh_production_def
        wpkh_production_def addr_production_def initial_def Let_def
        split: option.splits sum.splits if_splits)

lemma miniscript_productions_miniscript:
  "shwsh_production co p e ms = Inr d \<Longrightarrow> priv_miniscript d = Some ms \<and> ms \<noteq> []"
  "sh_production co p e ms = Inr d \<Longrightarrow> priv_miniscript d = Some ms \<and> ms \<noteq> []"
  "wsh_production co p e ms = Inr d \<Longrightarrow> priv_miniscript d = Some ms \<and> ms \<noteq> []"
  by (auto simp: shwsh_production_def sh_production_def wsh_production_def initial_def Let_def
        split: option.splits sum.splits if_splits prod.splits)

lemma no_miniscript_methods:
  assumes "priv_miniscript d = None"
  shows "getScriptSatisfaction co d signatures = Inl NotExpandedSatisfaction"
    and "getTimeConstraints co d = Inr None"
    and "getSequence co d = Inr None"
    and "getLockTime co d = Inr None"
  using assms
  by (simp_all add: getScriptSatisfaction_def getTimeConstraints_def getSequence_def
        getLockTime_def)

lemma constructed_miniscript:
  assumes "Descriptor_constructor co p = Inr d"
    and "evaluate (expression p) (checksumRequired p) (index p) = Inr e"
  shows "(dispatch co e \<in> {Pk, Pkh, ShWpkh, Wpkh} \<union> range Addr \<longrightarrow> priv_miniscript d = None)
       \<and> (\<forall>ms. dispatch co e \<in> {ShWsh ms, Sh ms, Wsh ms}
              \<longrightarrow> priv_miniscript d = Some ms \<and> ms \<noteq> [])
       \<and> dispatch co e \<noteq> NoProduction"
  using assms key_productions_no_miniscript[where co = co and p = p and e = e and d = d]
    miniscript_productions_miniscript[where co = co and p = p and e = e and d = d]
  by (cases "dispatch co e") (auto simp: Descriptor_constructor_def)

text \<open>
  Claim C10. For a descriptor constructed from one of the productions \<open>addr\<close>, \<open>pk\<close>,
  \<open>pkh\<close>, \<open>sh(wpkh)\<close>, \<open>wpkh\<close>, \<open>getScriptSatisfaction\<close> throws for every list of
  signatures, and \<open>getSequence\<close> and \<open>getLockTime\<close> return \<open>undefined\<close> without throwing.
  A constructed descriptor for which \<open>getScriptSatisfaction\<close> returns a satisfaction, or
  \<open>getLockTime\<close> or \<open>getSequence\<close> a defined value, comes from one of the productions
  \<open>sh(wsh)\<close>, \<open>sh\<close>, \<open>wsh\<close> with a miniscript.
\<close>

theorem satisfaction_needs_miniscript:
  assumes "Descriptor_constructor co p = Inr d"
    and "evaluate (expression p) (checksumRequired p) (index p) = Inr e"
  shows "(dispatch co e \<in> {Pk, Pkh, ShWpkh, Wpkh} \<union> range Addr \<longrightarrow>
            (\<forall>signatures. getScriptSatisfaction co d signatures = Inl NotExpandedSatisfaction)
            \<and> getSequence co d = Inr None \<and> getLockTime co d = Inr None)
       \<and> ((\<exists>signatures w. getScriptSatisfaction co d signatures = Inr w)
            \<or> (\<exists>t. getLockTime co d = Inr (Some t)) \<or> (\<exists>t. getSequence co d = Inr (Some t))
          \<longrightarrow> (\<exists>ms. dispatch co e \<in> {ShWsh ms, Sh ms, Wsh ms}))"
proof -
  note m = constructed_miniscript[OF assms]
  have one: "dispatch co e \<in> {Pk, Pkh, ShWpkh, Wpkh} \<union> range Addr \<longrightarrow>
            (\<forall>signatures. getScriptSatisfaction co d signatures = Inl NotExpandedSatisfaction)
            \<and> getSequence co d = Inr None \<and> getLockTime co d = Inr None"
    using m no_miniscript_methods[of d co] by blast
  have two: "\<exists>ms. dispatch co e \<in> {ShWsh ms, Sh ms, Wsh ms}"
    if "(\<exists>signatures w. getScriptSatisfaction co d signatures = Inr w)
        \<or> (\<exists>t. getLockTime co d = Inr (Some t)) \<or> (\<exists>t. getSequence co d = Inr (Some t))"
  proof (cases "dispatch co e \<in> {Pk, Pkh, ShWpkh, Wpkh} \<union> range Addr")
    case True
    with one that show ?thesis by auto
  next
    case False
    with m show ?thesis by (cases "dispatch co e") auto
  qed
  from one two show ?thesis by blast
qed

lemma constructor_sampleWsh:
  "Descriptor_constructor (sample [0x61] sat) (params ''wsh(x)'' None) = Inr sampleWsh"
  by (simp add: Descriptor_constructor_def evaluate_sample_texts dispatch_sample_texts
        params_def wsh_production_def expandMiniscript_def sample_fields
        MAX_STANDARD_P2WSH_SCRIPT_SIZE_def MAX_OPS_PER_SCRIPT_def
        count_sample_nops[of _ _ 1, simplified] sampleTemplate_def initial_def sampleWsh_def)

lemma sampleWsh_fields:
  "priv_miniscript sampleWsh = Some ''x''"
  "priv_expandedMiniscript sampleWsh = Some ''x''"
  "priv_expansionMap sampleWsh = Some []"
  "priv_isSegwit sampleWsh = Some True"
  "priv_preimages sampleWsh = []"
  "priv_signersKeyExpressions sampleWsh = None"
  "priv_witnessScript sampleWsh = Some [0x61]"
  "priv_redeemScript sampleWsh = None"
  "payment_output (priv_payment sampleWsh) = Some (0 # 0x20 # replicate 32 0)"
  by (simp_all add: sampleWsh_def)

lemma sampleWsh_timeConstraints:
  "getTimeConstraints (sample scr sat) sampleWsh
     = Inr (Some \<lparr> nLockTime = nLockTime sat, nSequence = nSequence sat \<rparr>)"
  by (simp add: getTimeConstraints_def sampleWsh_fields sample_fields)

lemma sampleWsh_getLockTime: "getLockTime (sample scr sat) sampleWsh = Inr (nLockTime sat)"
  by (simp add: getLockTime_def sampleWsh_timeConstraints)

lemma sampleWsh_getSequence: "getSequence (sample scr sat) sampleWsh = Inr (nSequence sat)"
  by (simp add: getSequence_def sampleWsh_timeConstraints)


lemma constructor_sampleAddr:
  "Descriptor_constructor (sample [] satPlain) (params ''addr(A)'' None)
     = Inr (initial (params ''addr(A)'' None)
              (Payment (Some (0 # 0x20 # replicate 32 7)) (Some ''address'') None None
                 (Some bitcoin)))"
  by (simp add: Descriptor_constructor_def params_def evaluate_addrA dispatch_addrA
        addr_production_def sample_fields tryTemplate_def sampleTemplate_def)

theorem satisfaction_needs_miniscript_witness:
  "getScriptSatisfaction (sample [] satPlain)
       (initial (params ''addr(A)'' None)
          (Payment (Some (0 # 0x20 # replicate 32 7)) (Some ''address'') None None
             (Some bitcoin))) []
     = Inl NotExpandedSatisfaction
   \<and> getLockTime (sample [0x61] satLocked) sampleWsh = Inr (Some 500)
   \<and> (\<exists>ms. dispatch (sample [0x61] satLocked) ''wsh(x)'' \<in> {ShWsh ms, Sh ms, Wsh ms})"
proof -
  have a: "getScriptSatisfaction (sample [] satPlain)
       (initial (params ''addr(A)'' None)
          (Payment (Some (0 # 0x20 # replicate 32 7)) (Some ''address'') None None
             (Some bitcoin))) []
     = Inl NotExpandedSatisfaction"
    using satisfaction_needs_miniscript[where co = "sample [] satPlain"
        and p = "params ''addr(A)'' None" and e = "''addr(A)''"
        and d = "initial (params ''addr(A)'' None)
          (Payment (Some (0 # 0x20 # replicate 32 7)) (Some ''address'') None None
             (Some bitcoin))"]
      constructor_sampleAddr
    by (simp add: params_def evaluate_addrA dispatch_addrA)
  have l: "getLockTime (sample [0x61] satLocked) sampleWsh = Inr (Some 500)"
    by (simp add: sampleWsh_getLockTime satLocked_def)
  have b: "\<exists>ms. dispatch (sample [0x61] satLocked) ''wsh(x)'' \<in> {ShWsh ms, Sh ms, Wsh ms}"
    using satisfaction_needs_miniscript[where co = "sample [0x61] satLocked"
        and p = "params ''wsh(x)'' None" and e = "''wsh(x)''" and d = sampleWsh]
      constructor_sampleWsh[of satLocked] l
    by (simp add: params_def evaluate_sample_texts)
  from a l b show ?thesis by blast
qed









section \<open>The sequence of a PSBT input\<close>

text \<open>What \<open>updatePsbt\<close> returns, when it returns, with a lock time derived.\<close>

lemma updatePsbt_locked:
  assumes "getLockTime co d = Inr (Some lt)"
    and "updatePsbt co d txHex vout psbt = Inr (psbt', i)"
  shows "\<exists>input. inputs psbt' = inputs psbt @ [input] \<and> i = length (inputs psbt)
           \<and> sequence input
              = (case getSequence co d of Inr (Some sq) \<Rightarrow> Some sq | _ \<Rightarrow> Some 0xfffffffe)
           \<and> (\<forall>sq. getSequence co d = Inr (Some sq) \<longrightarrow> sq \<le> 0xfffffffe)"
  using assms
  by (auto simp: updatePsbt_def Let_def split: sum.splits option.splits if_splits)

lemma updatePsbt_incompatible:
  assumes "getLockTime co d = Inr (Some lt)"
    and "getSequence co d = Inr (Some sq)" and "0xfffffffe < sq"
  shows "isl (updatePsbt co d txHex vout psbt)"
    and "fromHex co txHex = Inr tx \<Longrightarrow> vout < length (outs tx)
         \<Longrightarrow> locktime psbt = Some 0 \<or> locktime psbt = None
         \<Longrightarrow> setLocktimeError co psbt lt = None
         \<Longrightarrow> updatePsbt co d txHex vout psbt = Inl (IncompatibleSequence sq lt)"
  using assms
  by (auto simp: updatePsbt_def Let_def split: sum.splits option.splits if_splits)

text \<open>
  Claim C9. When \<open>updatePsbt\<close> runs on a descriptor whose derived lock time is defined:
  if it returns, it has added one input, at the position it returns, whose sequence is
  defined and at most \<open>0xfffffffe\<close>, and is \<open>0xfffffffe\<close> when no sequence is derived; if
  the derived sequence is greater than \<open>0xfffffffe\<close> it throws and adds no input (the
  error being that of the incompatible sequence once the transaction, the output and the
  lock time of the container have passed).
\<close>

theorem locked_input_sequence:
  assumes "getLockTime co d = Inr (Some lt)"
  shows "(\<forall>psbt' i. updatePsbt co d txHex vout psbt = Inr (psbt', i) \<longrightarrow>
            i < length (inputs psbt')
            \<and> butlast (inputs psbt') = inputs psbt
            \<and> (\<exists>s. sequence (inputs psbt' ! i) = Some s \<and> s \<le> 0xfffffffe)
            \<and> (getSequence co d = Inr None
                  \<longrightarrow> sequence (inputs psbt' ! i) = Some 0xfffffffe))
       \<and> (\<forall>sq. getSequence co d = Inr (Some sq) \<and> 0xfffffffe < sq \<longrightarrow>
            isl (updatePsbt co d txHex vout psbt)
            \<and> (\<forall>tx. fromHex co txHex = Inr tx \<and> vout < length (outs tx)
                     \<and> (locktime psbt = Some 0 \<or> locktime psbt = None)
                     \<and> setLocktimeError co psbt lt = None
                  \<longrightarrow> updatePsbt co d txHex vout psbt = Inl (IncompatibleSequence sq lt)))"
proof -
  have a: "i < length (inputs psbt')
            \<and> butlast (inputs psbt') = inputs psbt
            \<and> (\<exists>s. sequence (inputs psbt' ! i) = Some s \<and> s \<le> 0xfffffffe)
            \<and> (getSequence co d = Inr None
                  \<longrightarrow> sequence (inputs psbt' ! i) = Some 0xfffffffe)"
    if u: "updatePsbt co d txHex vout psbt = Inr (psbt', i)" for psbt' i
  proof -
    from updatePsbt_locked[OF assms u] obtain input
      where x: "inputs psbt' = inputs psbt @ [input]" "i = length (inputs psbt)"
        "sequence input
           = (case getSequence co d of Inr (Some sq) \<Rightarrow> Some sq | _ \<Rightarrow> Some 0xfffffffe)"
        "\<forall>sq. getSequence co d = Inr (Some sq) \<longrightarrow> sq \<le> 0xfffffffe"
      by blast
    from x show ?thesis
      by (auto split: sum.splits option.splits)
  qed
  from a updatePsbt_incompatible[OF assms, where txHex = txHex and vout = vout and psbt = psbt]
  show ?thesis by blast
qed

lemma sat_fields:
  "nLockTime satLocked = Some 500" "nSequence satLocked = None"
  "nLockTime satFinal = Some 500" "nSequence satFinal = Some 0xffffffff"
  "nLockTime satPlain = None" "nSequence satPlain = None"
  by (simp_all add: satLocked_def satFinal_def satPlain_def)

lemma sample_updatePsbt_returns:
  "\<not> isl (updatePsbt (sample [0x61] satLocked) sampleWsh ''00'' 0
            \<lparr> locktime = Some 0, inputs = [] \<rparr>)"
  by (simp add: updatePsbt_def sample_fields sampleWsh_getLockTime sampleWsh_getSequence
        sat_fields isSegwit_def getScriptPubKey_def sampleWsh_fields)

theorem locked_input_sequence_witness:
  "getLockTime (sample [0x61] satLocked) sampleWsh = Inr (Some 500)
   \<and> (\<exists>psbt' i. updatePsbt (sample [0x61] satLocked) sampleWsh ''00'' 0
                    \<lparr> locktime = Some 0, inputs = [] \<rparr> = Inr (psbt', i)
          \<and> sequence (inputs psbt' ! i) = Some 0xfffffffe)
   \<and> updatePsbt (sample [0x61] satFinal) sampleWsh ''00'' 0 \<lparr> locktime = Some 0, inputs = [] \<rparr>
       = Inl (IncompatibleSequence 0xffffffff 500)"
proof -
  have l: "getLockTime (sample [0x61] satLocked) sampleWsh = Inr (Some 500)"
    by (simp add: sampleWsh_getLockTime sat_fields)
  have l': "getLockTime (sample [0x61] satFinal) sampleWsh = Inr (Some 500)"
    by (simp add: sampleWsh_getLockTime sat_fields)
  obtain psbt' i where r: "updatePsbt (sample [0x61] satLocked) sampleWsh ''00'' 0
                    \<lparr> locktime = Some 0, inputs = [] \<rparr> = Inr (psbt', i)"
    using sample_updatePsbt_returns
    by (cases "updatePsbt (sample [0x61] satLocked) sampleWsh ''00'' 0
                 \<lparr> locktime = Some 0, inputs = [] \<rparr>") auto
  have a: "sequence (inputs psbt' ! i) = Some 0xfffffffe"
    using locked_input_sequence[OF l, where txHex = "''00''" and vout = 0
        and psbt = "\<lparr> locktime = Some 0, inputs = [] \<rparr>"] r
    by (simp add: sampleWsh_getSequence sat_fields)
  have b: "updatePsbt (sample [0x61] satFinal) sampleWsh ''00'' 0
             \<lparr> locktime = Some 0, inputs = [] \<rparr>
           = Inl (IncompatibleSequence 0xffffffff 500)"
    using locked_input_sequence[OF l', where txHex = "''00''" and vout = 0
        and psbt = "\<lparr> locktime = Some 0, inputs = [] \<rparr>"]
    by (simp add: sampleWsh_getSequence sat_fields sample_fields)
  from l r a b show ?thesis by blast
qed

section \<open>The checksum: algebra of the accumulator\<close>

lemma mask_35: "(0x7ffffffff :: nat) = mask 35"
  by (simp add: mask_eq_exp_minus_1)

lemma high_bits:
  "drop_bit 35 c AND 1 \<noteq> 0 \<longleftrightarrow> bit c 35"
  "drop_bit 35 c AND 2 \<noteq> 0 \<longleftrightarrow> bit c 36"
  "drop_bit 35 c AND 4 \<noteq> 0 \<longleftrightarrow> bit c 37"
  "drop_bit 35 c AND 8 \<noteq> 0 \<longleftrightarrow> bit c 38"
  "drop_bit 35 c AND 16 \<noteq> 0 \<longleftrightarrow> bit c 39"
  for c :: nat
  using and_exp_eq_0_iff_not_bit[of "drop_bit 35 c" 0]
    and_exp_eq_0_iff_not_bit[of "drop_bit 35 c" 1]
    and_exp_eq_0_iff_not_bit[of "drop_bit 35 c" 2]
    and_exp_eq_0_iff_not_bit[of "drop_bit 35 c" 3]
    and_exp_eq_0_iff_not_bit[of "drop_bit 35 c" 4]
  by (simp_all add: bit_drop_bit_eq)

lemma select_xor: "(if b then x XOR g else x) = x XOR (if b then g else (0::nat))"
  by simp

lemma PolyMod_alt: "PolyMod c v = push_bit 5 (take_bit 35 c) XOR v XOR feedback c"
  unfolding PolyMod_def Let_def high_bits select_xor feedback_def mask_35 take_bit_eq_mask
  by (simp add: xor.assoc)


lemma select_neq: "(if a \<noteq> b then g else 0) = (if a then g else 0) XOR (if b then g else (0::nat))"
  by simp

lemma feedback_xor: "feedback (c XOR d) = feedback c XOR feedback d"
  unfolding feedback_def bit_xor_iff select_neq
  by (simp only: ac_simps)

lemma PolyMod_linear: "PolyMod (c XOR d) (v XOR w) = PolyMod c v XOR PolyMod d w"
  unfolding PolyMod_alt feedback_xor take_bit_xor push_bit_xor
  by (simp only: ac_simps)

lemma xor_eq_0_nat: "a XOR b = 0 \<longleftrightarrow> a = b" for a b :: nat
proof
  assume "a XOR b = 0"
  then have "a XOR (a XOR b) = a" by simp
  then show "a = b" by (simp add: xor.assoc [symmetric])
qed simp

lemma xor_less_exp: "a < 2 ^ n \<Longrightarrow> b < 2 ^ n \<Longrightarrow> a XOR b < 2 ^ n" for a b :: nat
proof -
  assume "a < 2 ^ n" "b < 2 ^ n"
  then have "take_bit n (a XOR b) = a XOR b"
    by (simp add: take_bit_nat_eq_self)
  then show ?thesis by (simp only: take_bit_nat_eq_self_iff)
qed

lemma feedback_cases:
  "feedback c = (if bit c 35 then 0xf5dee51989 else 0) XOR (if bit c 36 then 0xa9fdca3312 else 0)
     XOR (if bit c 37 then 0x1bab10e32d else 0) XOR (if bit c 38 then 0x3706b1677a else 0)
     XOR (if bit c 39 then 0x644d626ffd else 0)"
  by (simp add: feedback_def)

lemma feedback_less: "feedback c < 2 ^ 40"
  unfolding feedback_def
  by (intro xor_less_exp) simp_all

lemma feedback_low:
  assumes "take_bit 5 (feedback c) = 0"
  shows "\<not> bit c 35 \<and> \<not> bit c 36 \<and> \<not> bit c 37 \<and> \<not> bit c 38 \<and> \<not> bit c 39"
  using assms unfolding feedback_def
  by (cases "bit c 35"; cases "bit c 36"; cases "bit c 37"; cases "bit c 38"; cases "bit c 39")
     (simp_all add: take_bit_eq_mask mask_numeral)

lemma PolyMod_less: "v < 2 ^ 40 \<Longrightarrow> PolyMod c v < 2 ^ 40"
proof -
  assume v: "v < 2 ^ 40"
  have "take_bit 35 c < 2 ^ 35" by (rule take_bit_nat_less_exp)
  then have "push_bit 5 (take_bit 35 c) < 2 ^ 40"
    by (simp add: push_bit_eq_mult)
  with v feedback_less[of c] show ?thesis
    unfolding PolyMod_alt by (intro xor_less_exp)
qed

lemma top_bits_unset:
  fixes c :: nat
  assumes "c < 2 ^ 40" and "\<not> bit c 35 \<and> \<not> bit c 36 \<and> \<not> bit c 37 \<and> \<not> bit c 38 \<and> \<not> bit c 39"
  shows "take_bit 35 c = c"
proof (rule bit_eqI)
  fix n
  from assms(1) have t: "take_bit 40 c = c" by (simp add: take_bit_nat_eq_self)
  have "bit c n \<Longrightarrow> n < 35"
  proof -
    assume b: "bit c n"
    with t have "n < 40" by (metis bit_take_bit_iff)
    moreover from b assms(2) have "n \<noteq> 35" "n \<noteq> 36" "n \<noteq> 37" "n \<noteq> 38" "n \<noteq> 39" by auto
    ultimately show "n < 35" by arith
  qed
  then show "bit (take_bit 35 c) n \<longleftrightarrow> bit c n"
    by (auto simp: bit_take_bit_iff)
qed

lemma PolyMod_zero:
  assumes "c < 2 ^ 40" and "PolyMod c 0 = 0"
  shows "c = 0"
proof -
  from assms(2) have e: "push_bit 5 (take_bit 35 c) = feedback c"
    by (simp add: PolyMod_alt xor_eq_0_nat)
  have "take_bit 5 (push_bit 5 (take_bit 35 c)) = 0"
    by (simp add: take_bit_push_bit)
  with e have "take_bit 5 (feedback c) = 0" by simp
  from feedback_low[OF this] have b: "\<not> bit c 35 \<and> \<not> bit c 36 \<and> \<not> bit c 37 \<and> \<not> bit c 38 \<and> \<not> bit c 39" .
  then have "feedback c = 0" by (simp add: feedback_def)
  with e have "take_bit 35 c = 0" by (simp add: push_bit_eq_mult)
  with top_bits_unset[OF assms(1) b] show ?thesis by simp
qed

lemma PolyMod_inj:
  assumes "c < 2 ^ 40" and "d < 2 ^ 40" and "PolyMod c v = PolyMod d v"
  shows "c = d"
proof -
  have "PolyMod (c XOR d) 0 = PolyMod c v XOR PolyMod d v"
    using PolyMod_linear[of c d v v] by simp
  with assms(3) have "PolyMod (c XOR d) 0 = 0" by simp
  from PolyMod_zero[OF xor_less_exp[OF assms(1,2)] this] show ?thesis
    by (simp add: xor_eq_0_nat)
qed

lemma feedback_small: "c < 2 ^ 35 \<Longrightarrow> feedback c = 0"
  for c :: nat
proof -
  assume "c < 2 ^ 35"
  then have t: "take_bit 35 c = c" by (simp add: take_bit_nat_eq_self)
  have "\<not> bit c n" if "35 \<le> n" for n
    using that t by (metis bit_take_bit_iff not_le)
  then show ?thesis by (simp add: feedback_def)
qed

lemma PolyMod_small: "c < 2 ^ 35 \<Longrightarrow> PolyMod c v = push_bit 5 c XOR v"
  by (simp add: PolyMod_alt feedback_small take_bit_nat_eq_self)

lemma shifted_xor_nonzero:
  assumes "e < 32" and "e \<noteq> 0"
  shows "push_bit 5 x XOR e \<noteq> (0::nat)"
proof
  assume "push_bit 5 x XOR e = 0"
  then have "take_bit 5 (push_bit 5 x XOR e) = 0" by simp
  then have "take_bit 5 e = 0" by (simp add: take_bit_push_bit)
  with assms show False by (simp add: take_bit_nat_eq_self)
qed

section \<open>The checksum: the loop\<close>

lemma indexOf_Some: "indexOf xs ch = Some p \<Longrightarrow> p < length xs \<and> xs ! p = ch"
  by (induction xs arbitrary: p) (auto split: if_splits)

lemma indexOf_None: "indexOf xs ch = None \<longleftrightarrow> ch \<notin> set xs"
  by (induction xs) auto

lemma length_INPUT_CHARSET: "length INPUT_CHARSET = 95"
  by (simp add: INPUT_CHARSET_def)

lemma position_parts:
  fixes p :: nat
  assumes "p < 95"
  shows "p AND 31 < 32" and "drop_bit 5 p < 3" and "p AND 31 < 2 ^ 40"
proof -
  have "p AND 31 = take_bit 5 p" by (simp add: take_bit_eq_mask mask_numeral)
  moreover have "take_bit 5 p < 2 ^ 5" by (rule take_bit_nat_less_exp)
  ultimately show "p AND 31 < 32" by simp
  then show "p AND 31 < 2 ^ 40" by simp
  from assms show "drop_bit 5 p < 3" by (simp add: drop_bit_eq_div)
qed

lemma position_differs:
  fixes p q :: nat
  assumes "p \<noteq> q"
  shows "p AND 31 \<noteq> q AND 31 \<or> drop_bit 5 p \<noteq> drop_bit 5 q"
proof -
  have "p = push_bit 5 (drop_bit 5 p) + take_bit 5 p" "q = push_bit 5 (drop_bit 5 q) + take_bit 5 q"
    by (simp_all add: bits_ident)
  with assms show ?thesis
    by (auto simp: take_bit_eq_mask mask_numeral)
qed

lemma checksumStep_open:
  "n + 1 \<noteq> 3 \<Longrightarrow>
   checksumStep p (c, cls, n) = (PolyMod c (p AND 31), cls * 3 + drop_bit 5 p, n + 1)"
  by (simp add: checksumStep_def Let_def)

lemma checksumStep_close:
  "n + 1 = 3 \<Longrightarrow>
   checksumStep p (c, cls, n) = (PolyMod (PolyMod c (p AND 31)) (cls * 3 + drop_bit 5 p), 0, 0)"
  by (simp add: checksumStep_def Let_def)

lemma reachable_step:
  assumes "reachable s" and "p < 95"
  shows "reachable (checksumStep p s)"
proof -
  obtain c cls n where s: "s = (c, cls, n)" by (cases s)
  from assms(1) s have b: "c < 2 ^ 40" "n < 3" "cls < 3 ^ n" by (simp_all add: reachable_def)
  note q = position_parts[OF assms(2)]
  have g: "cls * 3 + drop_bit 5 p < 3 ^ (n + 1)" using b(3) q(2) by simp
  show ?thesis
  proof (cases "n + 1 = 3")
    case True
    then have "n = 2" by simp
    with g have "cls * 3 + drop_bit 5 p < 2 ^ 40" by simp
    from PolyMod_less[OF this] show ?thesis
      unfolding s checksumStep_close[OF True] reachable_def
      by simp
  next
    case False
    with b(2) have "n + 1 < 3" by simp
    with g show ?thesis
      unfolding s checksumStep_open[OF False] reachable_def
      using PolyMod_less[OF q(3), of c] by simp
  qed
qed

lemma checksumLoop_append:
  "checksumLoop (xs @ ys) s
     = (case checksumLoop xs s of None \<Rightarrow> None | Some t \<Rightarrow> checksumLoop ys t)"
  by (induction xs arbitrary: s) (auto split: option.splits)

lemma checksumLoop_reachable:
  "checksumLoop xs s = Some t \<Longrightarrow> reachable s \<Longrightarrow> reachable t"
proof (induction xs arbitrary: s)
  case Nil
  then show ?case by simp
next
  case (Cons x xs)
  from Cons.prems(1) obtain p where p: "indexOf INPUT_CHARSET x = Some p"
    and l: "checksumLoop xs (checksumStep p s) = Some t"
    by (auto split: option.splits)
  from indexOf_Some[OF p] have "p < 95" by (simp add: length_INPUT_CHARSET)
  from Cons.IH[OF l reachable_step[OF Cons.prems(2) this]] show ?case .
qed

lemma checksumLoop_Some:
  "checksumLoop xs s \<noteq> None \<longleftrightarrow> set xs \<subseteq> set INPUT_CHARSET"
proof (induction xs arbitrary: s)
  case Nil
  then show ?case by simp
next
  case (Cons x xs)
  show ?case
  proof (cases "indexOf INPUT_CHARSET x")
    case None
    then have "x \<notin> set INPUT_CHARSET" by (simp add: indexOf_None)
    with None show ?thesis by simp
  next
    case (Some p)
    then have "x \<in> set INPUT_CHARSET"
      using indexOf_None[of INPUT_CHARSET x] by auto
    with Some Cons.IH[of "checksumStep p s"] show ?thesis by simp
  qed
qed

lemma close_differs:
  assumes "c < 2 ^ 40" and "c' < 2 ^ 40" and "e < 32" and "e' < 32"
    and "(c \<noteq> c' \<and> e = e') \<or> (e \<noteq> e' \<and> c XOR c' < 2 ^ 35)"
  shows "PolyMod c e \<noteq> PolyMod c' e'"
  using assms(5)
proof
  assume "c \<noteq> c' \<and> e = e'"
  with PolyMod_inj[OF assms(1,2), of e] show ?thesis by auto
next
  assume a: "e \<noteq> e' \<and> c XOR c' < 2 ^ 35"
  from assms(3,4) have "e < 2 ^ 5" "e' < 2 ^ 5" by simp_all
  from xor_less_exp[OF this] have l: "e XOR e' < 32" by simp
  from a have n: "e XOR e' \<noteq> 0" by (simp add: xor_eq_0_nat)
  from a have small: "c XOR c' < 2 ^ 35" by simp
  have "PolyMod c e XOR PolyMod c' e' = PolyMod (c XOR c') (e XOR e')"
    by (rule PolyMod_linear[symmetric])
  also have "\<dots> = push_bit 5 (c XOR c') XOR (e XOR e')"
    by (rule PolyMod_small[OF small])
  finally have eq: "PolyMod c e XOR PolyMod c' e' = push_bit 5 (c XOR c') XOR (e XOR e')" .
  show ?thesis
  proof
    assume "PolyMod c e = PolyMod c' e'"
    then have "PolyMod c e XOR PolyMod c' e' = 0" by simp
    with eq have "push_bit 5 (c XOR c') XOR (e XOR e') = 0" by (simp only:)
    with shifted_xor_nonzero[OF l n, of "c XOR c'"] show False by (rule notE)
  qed
qed

lemma feed_same:
  assumes "c XOR c' < 2 ^ 35"
  shows "PolyMod c l XOR PolyMod c' l = push_bit 5 (c XOR c')"
  using PolyMod_linear[of c c' l l] PolyMod_small[OF assms, of 0] by simp

lemma feed_differs:
  "PolyMod c l XOR PolyMod c l' = l XOR l'"
  using PolyMod_linear[of c c l l'] PolyMod_small[of 0 "l XOR l'"] by simp

lemma push_bit_5_less:
  fixes d :: nat
  assumes "d < 2 ^ (5 * n)"
  shows "push_bit 5 d < 2 ^ (5 * (n + 1))"
proof -
  from assms have "d * 2 ^ 5 < 2 ^ (5 * n) * 2 ^ 5" by simp
  then show ?thesis by (simp add: push_bit_eq_mult power_add mult.commute)
qed

lemma diverged_step:
  assumes "diverged s t" and "p < 95"
  shows "diverged (checksumStep p s) (checksumStep p t)"
proof -
  obtain c cls n where s: "s = (c, cls, n)" by (cases s)
  obtain c' cls' n' where t: "t = (c', cls', n')" by (cases t)
  from assms(1) have "diverged (c, cls, n) (c', cls', n')" unfolding s t .
  then have n: "n' = n" and rs: "reachable s" and rt: "reachable t"
    and d: "(c \<noteq> c' \<and> cls = cls') \<or> (cls \<noteq> cls' \<and> c XOR c' < 2 ^ (5 * n))"
    unfolding s t by (auto simp: diverged_def)
  from rs rt s t n have b: "c < 2 ^ 40" "c' < 2 ^ 40" "n < 3" "cls < 3 ^ n" "cls' < 3 ^ n"
    by (simp_all add: reachable_def)
  note q = position_parts[OF assms(2)]
  let ?l = "p AND 31" and ?g = "drop_bit 5 p"
  note r = reachable_step[OF rs assms(2)] reachable_step[OF rt assms(2)]
  have lt: "PolyMod c ?l < 2 ^ 40" "PolyMod c' ?l < 2 ^ 40"
    by (rule PolyMod_less[OF q(3)])+
  have small: "c XOR c' < 2 ^ 35" if "c XOR c' < 2 ^ (5 * n)"
  proof -
    from b(3) have "(2::nat) ^ (5 * n) \<le> 2 ^ 35" by (intro power_increasing) simp_all
    with that show ?thesis by simp
  qed
  have fed: "(PolyMod c ?l \<noteq> PolyMod c' ?l \<and> cls * 3 + ?g = cls' * 3 + ?g)
           \<or> (cls * 3 + ?g \<noteq> cls' * 3 + ?g
               \<and> PolyMod c ?l XOR PolyMod c' ?l < 2 ^ (5 * (n + 1)))"
    using d
  proof
    assume "c \<noteq> c' \<and> cls = cls'"
    with PolyMod_inj[OF b(1,2), of ?l] show ?thesis by auto
  next
    assume a: "cls \<noteq> cls' \<and> c XOR c' < 2 ^ (5 * n)"
    with feed_same[OF small, of ?l] push_bit_5_less[of "c XOR c'" n] show ?thesis by simp
  qed
  show ?thesis
  proof (cases "n + 1 = 3")
    case True
    then have n2: "n = 2" by simp
    with b(4,5) q(2) have e: "cls * 3 + ?g < 32" "cls' * 3 + ?g < 32" by simp_all
    from fed n2 have "(PolyMod c ?l \<noteq> PolyMod c' ?l \<and> cls * 3 + ?g = cls' * 3 + ?g)
           \<or> (cls * 3 + ?g \<noteq> cls' * 3 + ?g \<and> PolyMod c ?l XOR PolyMod c' ?l < 2 ^ 35)"
      by auto
    from close_differs[OF lt e this] r show ?thesis
      unfolding s t n using True by (simp add: checksumStep_close diverged_def)
  next
    case False
    with fed r show ?thesis
      unfolding s t n by (simp add: checksumStep_open diverged_def)
  qed
qed

lemma diverged_first:
  assumes "reachable s" and "p < 95" and "q < 95" and "p \<noteq> q"
  shows "diverged (checksumStep p s) (checksumStep q s)"
proof -
  obtain c cls n where s: "s = (c, cls, n)" by (cases s)
  from assms(1) s have b: "c < 2 ^ 40" "n < 3" "cls < 3 ^ n" by (simp_all add: reachable_def)
  note pp = position_parts[OF assms(2)] and qq = position_parts[OF assms(3)]
  let ?l = "p AND 31" and ?g = "drop_bit 5 p" and ?l' = "q AND 31" and ?g' = "drop_bit 5 q"
  note r = reachable_step[OF assms(1,2)] reachable_step[OF assms(1,3)]
  have lt: "PolyMod c ?l < 2 ^ 40" "PolyMod c ?l' < 2 ^ 40"
    by (rule PolyMod_less[OF pp(3)], rule PolyMod_less[OF qq(3)])
  from pp(1) qq(1) have "?l < 2 ^ 5" "?l' < 2 ^ 5" by simp_all
  from xor_less_exp[OF this] have x: "PolyMod c ?l XOR PolyMod c ?l' < 2 ^ 5"
    by (simp add: feed_differs)
  have fed: "(PolyMod c ?l \<noteq> PolyMod c ?l' \<and> cls * 3 + ?g = cls * 3 + ?g')
           \<or> (cls * 3 + ?g \<noteq> cls * 3 + ?g' \<and> PolyMod c ?l XOR PolyMod c ?l' < 2 ^ 5)"
  proof (cases "?g = ?g'")
    case True
    with position_differs[OF assms(4)] have "?l XOR ?l' \<noteq> 0" by (simp add: xor_eq_0_nat)
    then have "PolyMod c ?l XOR PolyMod c ?l' \<noteq> 0" by (simp add: feed_differs)
    with True show ?thesis by (simp add: xor_eq_0_nat)
  next
    case False
    with x show ?thesis by simp
  qed
  show ?thesis
  proof (cases "n + 1 = 3")
    case True
    then have n2: "n = 2" by simp
    with b(3) pp(2) qq(2) have e: "cls * 3 + ?g < 32" "cls * 3 + ?g' < 32" by simp_all
    from fed have "(PolyMod c ?l \<noteq> PolyMod c ?l' \<and> cls * 3 + ?g = cls * 3 + ?g')
           \<or> (cls * 3 + ?g \<noteq> cls * 3 + ?g' \<and> PolyMod c ?l XOR PolyMod c ?l' < 2 ^ 35)"
      by auto
    from close_differs[OF lt e this] r show ?thesis
      unfolding s using True by (simp add: checksumStep_close diverged_def)
  next
    case False
    have "(2::nat) ^ 5 \<le> 2 ^ (5 * (n + 1))" by (intro power_increasing) simp_all
    with fed have "(PolyMod c ?l \<noteq> PolyMod c ?l' \<and> cls * 3 + ?g = cls * 3 + ?g')
           \<or> (cls * 3 + ?g \<noteq> cls * 3 + ?g'
               \<and> PolyMod c ?l XOR PolyMod c ?l' < 2 ^ (5 * (n + 1)))"
      by auto
    with r False show ?thesis
      unfolding s by (simp add: checksumStep_open diverged_def)
  qed
qed

lemma diverged_loop:
  assumes "diverged s t" and "checksumLoop xs s = Some s'" and "checksumLoop xs t = Some t'"
  shows "diverged s' t'"
  using assms
proof (induction xs arbitrary: s t)
  case Nil
  then show ?case by simp
next
  case (Cons x xs)
  from Cons.prems(2) obtain p where p: "indexOf INPUT_CHARSET x = Some p"
    and l: "checksumLoop xs (checksumStep p s) = Some s'"
    by (auto split: option.splits)
  from Cons.prems(3) p have l': "checksumLoop xs (checksumStep p t) = Some t'" by simp
  from indexOf_Some[OF p] have "p < 95" by (simp add: length_INPUT_CHARSET)
  from Cons.IH[OF diverged_step[OF Cons.prems(1) this] l l'] show ?case .
qed

lemma zeros_differ:
  assumes "a < 2 ^ 40" and "b < 2 ^ 40" and "a \<noteq> b"
  shows "((\<lambda>x. PolyMod x 0) ^^ k) a \<noteq> ((\<lambda>x. PolyMod x 0) ^^ k) b
       \<and> ((\<lambda>x. PolyMod x 0) ^^ k) a < 2 ^ 40 \<and> ((\<lambda>x. PolyMod x 0) ^^ k) b < 2 ^ 40"
proof (induction k)
  case 0
  from assms show ?case by simp
next
  case (Suc k)
  let ?a = "((\<lambda>x. PolyMod x 0) ^^ k) a" and ?b = "((\<lambda>x. PolyMod x 0) ^^ k) b"
  from Suc have h: "?a \<noteq> ?b" "?a < 2 ^ 40" "?b < 2 ^ 40" by simp_all
  have z: "(0::nat) < 2 ^ 40" by simp
  from PolyMod_inj[OF h(2,3), of 0] h(1) have "PolyMod ?a 0 \<noteq> PolyMod ?b 0" by auto
  moreover have "PolyMod ?a 0 < 2 ^ 40" "PolyMod ?b 0 < 2 ^ 40"
    by (rule PolyMod_less[OF z])+
  ultimately show ?case by simp
qed

lemma finish_less:
  assumes "reachable s"
  shows "finish s < 2 ^ 40"
proof -
  obtain c cls n where s: "s = (c, cls, n)" by (cases s)
  from assms s have b: "c < 2 ^ 40" "n < 3" "cls < 3 ^ n" by (simp_all add: reachable_def)
  let ?c = "if n > 0 then PolyMod c cls else c"
  have "(3::nat) ^ n \<le> 3 ^ 3" using b(2) by (intro power_increasing) simp_all
  with b(3) have "cls < 2 ^ 40" by simp
  from PolyMod_less[OF this, of c] b(1) have c: "?c < 2 ^ 40" by simp
  have "((\<lambda>x. PolyMod x 0) ^^ k) x < 2 ^ 40" if "x < 2 ^ 40" for k x
  proof (induction k)
    case 0
    from that show ?case by simp
  next
    case (Suc k)
    have z: "(0::nat) < 2 ^ 40" by simp
    from PolyMod_less[OF z] show ?case by simp
  qed
  from this[OF c, of 8] have "((\<lambda>x. PolyMod x 0) ^^ 8) ?c < 2 ^ 40" .
  moreover have "(1::nat) < 2 ^ 40" by simp
  ultimately have "((\<lambda>x. PolyMod x 0) ^^ 8) ?c XOR 1 < 2 ^ 40" by (rule xor_less_exp)
  then show ?thesis unfolding s finish_def by simp
qed

lemma diverged_finish:
  assumes "diverged s t"
  shows "finish s \<noteq> finish t"
proof -
  obtain c cls n where s: "s = (c, cls, n)" by (cases s)
  obtain c' cls' n' where t: "t = (c', cls', n')" by (cases t)
  from assms have "diverged (c, cls, n) (c', cls', n')" unfolding s t .
  then have n: "n' = n" and rs: "reachable s" and rt: "reachable t"
    and d: "(c \<noteq> c' \<and> cls = cls') \<or> (cls \<noteq> cls' \<and> c XOR c' < 2 ^ (5 * n))"
    unfolding s t by (auto simp: diverged_def)
  from rs rt s t n have b: "c < 2 ^ 40" "c' < 2 ^ 40" "n < 3" "cls < 3 ^ n" "cls' < 3 ^ n"
    by (simp_all add: reachable_def)
  let ?c = "if n > 0 then PolyMod c cls else c" and ?c' = "if n > 0 then PolyMod c' cls' else c'"
  have "(3::nat) ^ n \<le> 3 ^ 2" using b(3) by (intro power_increasing) simp_all
  with b(4,5) have e: "cls < 32" "cls' < 32" by simp_all
  then have e40: "cls < 2 ^ 40" "cls' < 2 ^ 40" by simp_all
  have lt: "?c < 2 ^ 40" "?c' < 2 ^ 40"
    using PolyMod_less[OF e40(1), of c] PolyMod_less[OF e40(2), of c'] b(1,2) by simp_all
  have ne: "?c \<noteq> ?c'"
  proof (cases "n > 0")
    case True
    have "(2::nat) ^ (5 * n) \<le> 2 ^ 35" using b(3) by (intro power_increasing) simp_all
    with d have "(c \<noteq> c' \<and> cls = cls') \<or> (cls \<noteq> cls' \<and> c XOR c' < 2 ^ 35)" by auto
    from close_differs[OF b(1,2) e this] True show ?thesis by simp
  next
    case False
    with b(4,5) have "cls = cls'" by simp
    with d False show ?thesis by simp
  qed
  from zeros_differ[OF lt ne, of 8]
  have "((\<lambda>x. PolyMod x 0) ^^ 8) ?c \<noteq> ((\<lambda>x. PolyMod x 0) ^^ 8) ?c'" by simp
  then have "((\<lambda>x. PolyMod x 0) ^^ 8) ?c XOR 1 \<noteq> ((\<lambda>x. PolyMod x 0) ^^ 8) ?c' XOR 1"
    by (metis xor.assoc xor_eq_0_nat xor_self_eq xor.right_neutral)
  then show ?thesis unfolding s t n finish_def by simp
qed

lemma DescriptorChecksum_finish:
  "DescriptorChecksum span
     = (case checksumLoop span (1, 0, 0) of None \<Rightarrow> [] | Some s \<Rightarrow> checksumChars (finish s))"
  by (simp add: DescriptorChecksum_def finish_def Let_def split: option.splits prod.splits)

lemma distinct_CHECKSUM_CHARSET: "distinct CHECKSUM_CHARSET"
  by (simp add: CHECKSUM_CHARSET_def)

lemma length_CHECKSUM_CHARSET: "length CHECKSUM_CHARSET = 32"
  by (simp add: CHECKSUM_CHARSET_def)

lemma and_31_less: "x AND 31 < (32::nat)"
proof -
  have "x AND 31 = take_bit 5 x" by (simp add: take_bit_eq_mask mask_numeral)
  moreover have "take_bit 5 x < 2 ^ 5" by (rule take_bit_nat_less_exp)
  ultimately show ?thesis by simp
qed

lemma length_checksumChars: "length (checksumChars c) = 8"
  by (simp add: checksumChars_def)

lemma set_checksumChars: "set (checksumChars c) \<subseteq> set CHECKSUM_CHARSET"
  using and_31_less by (auto simp: checksumChars_def length_CHECKSUM_CHARSET)

lemma checksumChars_nth:
  "j < 8 \<Longrightarrow> checksumChars c ! j = CHECKSUM_CHARSET ! (drop_bit (5 * (7 - j)) c AND 31)"
  by (simp add: checksumChars_def)

lemma checksumChars_inj:
  assumes "a < 2 ^ 40" and "b < 2 ^ 40" and "checksumChars a = checksumChars b"
  shows "a = b"
proof (rule bit_eqI)
  fix n
  from assms(1,2) have t: "take_bit 40 a = a" "take_bit 40 b = b"
    by (simp_all add: take_bit_nat_eq_self)
  show "bit a n \<longleftrightarrow> bit b n"
  proof (cases "n < 40")
    case False
    with t show ?thesis by (metis bit_take_bit_iff)
  next
    case True
    define j where "j = 7 - n div 5"
    from True have j: "j < 8" "5 * (7 - j) = 5 * (n div 5)" by (simp_all add: j_def)
    from assms(3) have "checksumChars a ! j = checksumChars b ! j" by simp
    with j(1) have "CHECKSUM_CHARSET ! (drop_bit (5 * (7 - j)) a AND 31)
          = CHECKSUM_CHARSET ! (drop_bit (5 * (7 - j)) b AND 31)"
      by (simp add: checksumChars_nth)
    then have "drop_bit (5 * (7 - j)) a AND 31 = drop_bit (5 * (7 - j)) b AND 31"
      using and_31_less distinct_CHECKSUM_CHARSET
      by (simp add: nth_eq_iff_index_eq length_CHECKSUM_CHARSET)
    then have "take_bit 5 (drop_bit (5 * (n div 5)) a) = take_bit 5 (drop_bit (5 * (n div 5)) b)"
      by (simp add: j(2) take_bit_eq_mask mask_numeral)
    then have "bit (take_bit 5 (drop_bit (5 * (n div 5)) a)) (n mod 5)
             \<longleftrightarrow> bit (take_bit 5 (drop_bit (5 * (n div 5)) b)) (n mod 5)" by simp
    then show ?thesis
      by (simp add: bit_take_bit_iff bit_drop_bit_eq)
  qed
qed

section \<open>The checksum: validation\<close>

lemma reachable_start: "reachable (1, 0, 0)"
  by (simp add: reachable_def)

lemma checksum_of_valid:
  assumes "set D \<subseteq> set INPUT_CHARSET"
  shows "\<exists>s. checksumLoop D (1, 0, 0) = Some s \<and> reachable s
            \<and> DescriptorChecksum D = checksumChars (finish s)"
proof -
  from assms checksumLoop_Some[of D "(1, 0, 0)"] obtain s
    where s: "checksumLoop D (1, 0, 0) = Some s" by auto
  from checksumLoop_reachable[OF s reachable_start] s show ?thesis
    by (simp add: DescriptorChecksum_finish del: One_nat_def)
qed

lemma checksum_shape:
  assumes "set D \<subseteq> set INPUT_CHARSET"
  shows "length (DescriptorChecksum D) = 8"
    and "set (DescriptorChecksum D) \<subseteq> set CHECKSUM_CHARSET"
proof -
  from checksum_of_valid[OF assms] obtain s
    where s: "DescriptorChecksum D = checksumChars (finish s)" by blast
  show "length (DescriptorChecksum D) = 8" unfolding s by (rule length_checksumChars)
  show "set (DescriptorChecksum D) \<subseteq> set CHECKSUM_CHARSET"
    unfolding s by (rule set_checksumChars)
qed

lemma checksum_detects_substitution:
  assumes "set D \<subseteq> set INPUT_CHARSET" and "k < length D" and "ch \<noteq> D ! k"
  shows "DescriptorChecksum (D[k := ch]) \<noteq> DescriptorChecksum D"
proof -
  let ?xs = "take k D" and ?ys = "drop (Suc k) D"
  have D: "D = ?xs @ D ! k # ?ys" by (rule id_take_nth_drop[OF assms(2)])
  have D': "D[k := ch] = ?xs @ ch # ?ys" by (rule upd_conv_take_nth_drop[OF assms(2)])
  from assms(1) D have v: "set ?xs \<subseteq> set INPUT_CHARSET" "D ! k \<in> set INPUT_CHARSET"
    "set ?ys \<subseteq> set INPUT_CHARSET"
    by (metis Un_subset_iff set_append, metis assms(2) nth_mem subsetD,
        metis Un_subset_iff set_append set_subset_Cons subset_trans)
  from v(1) checksumLoop_Some[of ?xs "(1, 0, 0)"] obtain s0
    where s0: "checksumLoop ?xs (1, 0, 0) = Some s0" by auto
  note r0 = checksumLoop_reachable[OF s0 reachable_start]
  from v(2) indexOf_None[of INPUT_CHARSET "D ! k"] obtain p
    where p: "indexOf INPUT_CHARSET (D ! k) = Some p" by auto
  from v(3) checksumLoop_Some[of ?ys "checksumStep p s0"] obtain s1
    where s1: "checksumLoop ?ys (checksumStep p s0) = Some s1" by auto
  have l: "checksumLoop D (1, 0, 0) = Some s1"
    by (subst D) (simp add: checksumLoop_append s0 p s1 del: One_nat_def)
  from indexOf_Some[OF p] have pb: "p < 95" "INPUT_CHARSET ! p = D ! k"
    by (simp_all add: length_INPUT_CHARSET)
  note r1 = checksumLoop_reachable[OF s1 reachable_step[OF r0 pb(1)]]
  have len: "length (DescriptorChecksum D) = 8" by (rule checksum_shape(1)[OF assms(1)])
  show ?thesis
  proof (cases "indexOf INPUT_CHARSET ch")
    case None
    have "checksumLoop (D[k := ch]) (1, 0, 0) = None"
      by (subst D') (simp add: checksumLoop_append s0 None del: One_nat_def)
    then have "DescriptorChecksum (D[k := ch]) = []"
      by (simp add: DescriptorChecksum_finish del: One_nat_def)
    with len show ?thesis by auto
  next
    case (Some q)
    from indexOf_Some[OF Some] have qb: "q < 95" "INPUT_CHARSET ! q = ch"
      by (simp_all add: length_INPUT_CHARSET)
    from pb(2) qb(2) assms(3) have "p \<noteq> q" by auto
    note d = diverged_first[OF r0 pb(1) qb(1) this]
    from v(3) checksumLoop_Some[of ?ys "checksumStep q s0"] obtain s1'
      where s1': "checksumLoop ?ys (checksumStep q s0) = Some s1'" by auto
    have l': "checksumLoop (D[k := ch]) (1, 0, 0) = Some s1'"
      by (subst D') (simp add: checksumLoop_append s0 Some s1' del: One_nat_def)
    note r1' = checksumLoop_reachable[OF s1' reachable_step[OF r0 qb(1)]]
    from diverged_finish[OF diverged_loop[OF d s1 s1']] have "finish s1 \<noteq> finish s1'" .
    with checksumChars_inj[OF finish_less[OF r1] finish_less[OF r1']]
    have "checksumChars (finish s1) \<noteq> checksumChars (finish s1')" by auto
    with l l' show ?thesis by (simp add: DescriptorChecksum_finish del: One_nat_def)
  qed
qed

lemma matchChecksum_suffix:
  assumes "length cs = 8"
  shows "matchChecksum (D @ CHR ''#'' # cs)
           = (if set cs \<subseteq> set CHECKSUM_CHARSET then Some (CHR ''#'' # cs) else None)"
  using assms by (auto simp: matchChecksum_def list_all_iff)

lemma verifyChecksum_suffix:
  assumes "length cs = 8"
  shows "verifyChecksum (D @ CHR ''#'' # cs) r
           = (if set cs \<subseteq> set CHECKSUM_CHARSET
              then (if cs \<noteq> DescriptorChecksum D then Inl (InvalidChecksum (D @ CHR ''#'' # cs))
                    else Inr D)
              else (if r then Inl (NoChecksum (D @ CHR ''#'' # cs)) else Inr (D @ CHR ''#'' # cs)))"
  using assms by (simp add: verifyChecksum_def matchChecksum_suffix)

lemma constructor_checksum_error:
  "verifyChecksum (expression p) (checksumRequired p) = Inl e
   \<Longrightarrow> Descriptor_constructor co p = Inl e"
  by (simp add: Descriptor_constructor_def evaluate_def)

text \<open>
  Claim C4, as amended. For a body \<open>D\<close> over the input alphabet: the expression \<open>D\<close>,
  \<open>#\<close>, \<open>checksum(D)\<close> passes the checksum validation of the constructor, which goes on
  with \<open>D\<close>; replacing one character of \<open>D\<close> by another character makes construction throw
  the checksum-mismatch error, and so does replacing one character of the checksum by
  another character of the checksum charset. Replacing a character of the checksum by a
  character outside the checksum charset leaves a text without a recognised checksum:
  evaluation throws that the descriptor has no checksum when a checksum is required, and
  otherwise goes on with the whole text.
\<close>

theorem checksum_validation:
  assumes "set D \<subseteq> set INPUT_CHARSET"
  shows "(expression p = D @ ''#'' @ checksum D \<longrightarrow>
            evaluate (expression p) (checksumRequired p) (index p)
              = substituteIndex D (index p))
       \<and> (\<forall>k ch. k < length D \<and> ch \<noteq> D ! k
                  \<and> expression p = D[k := ch] @ ''#'' @ checksum D \<longrightarrow>
             Descriptor_constructor co p = Inl (InvalidChecksum (expression p)))
       \<and> (\<forall>k ch. k < 8 \<and> ch \<in> set CHECKSUM_CHARSET \<and> ch \<noteq> checksum D ! k
                  \<and> expression p = D @ ''#'' @ (checksum D)[k := ch] \<longrightarrow>
             Descriptor_constructor co p = Inl (InvalidChecksum (expression p)))
       \<and> (\<forall>k ch. k < 8 \<and> ch \<notin> set CHECKSUM_CHARSET
                  \<and> expression p = D @ ''#'' @ (checksum D)[k := ch] \<longrightarrow>
             evaluate (expression p) (checksumRequired p) (index p)
               = (if checksumRequired p then Inl (NoChecksum (expression p))
                  else substituteIndex (expression p) (index p)))"
proof -
  note sh = checksum_shape[OF assms]
  have one: "expression p = D @ ''#'' @ checksum D \<longrightarrow>
            evaluate (expression p) (checksumRequired p) (index p)
              = substituteIndex D (index p)"
    using sh verifyChecksum_suffix[of "DescriptorChecksum D" D "checksumRequired p"]
    by (simp add: evaluate_def checksum_def)
  have two: "Descriptor_constructor co p = Inl (InvalidChecksum (expression p))"
    if "k < length D" and "ch \<noteq> D ! k"
      and e: "expression p = D[k := ch] @ ''#'' @ checksum D" for k ch
  proof -
    from checksum_detects_substitution[OF assms that(1,2)]
    have "verifyChecksum (expression p) (checksumRequired p)
            = Inl (InvalidChecksum (expression p))"
      using sh verifyChecksum_suffix[of "DescriptorChecksum D" "D[k := ch]" "checksumRequired p"]
      by (simp add: e checksum_def)
    then show ?thesis by (rule constructor_checksum_error)
  qed
  have three: "Descriptor_constructor co p = Inl (InvalidChecksum (expression p))"
    if "k < 8" and "ch \<in> set CHECKSUM_CHARSET" and "ch \<noteq> checksum D ! k"
      and e: "expression p = D @ ''#'' @ (checksum D)[k := ch]" for k ch
  proof -
    let ?cs = "(DescriptorChecksum D)[k := ch]"
    have l: "length ?cs = 8" using sh(1) by simp
    have m: "set ?cs \<subseteq> set CHECKSUM_CHARSET"
      using sh(2) that(2) set_update_subset_insert[of "DescriptorChecksum D" k ch] by auto
    have "?cs ! k = ch" using that(1) sh(1) by simp
    with that(3) have n: "?cs \<noteq> DescriptorChecksum D" by (auto simp: checksum_def)
    from verifyChecksum_suffix[OF l, of D "checksumRequired p"] m n
    have "verifyChecksum (expression p) (checksumRequired p)
            = Inl (InvalidChecksum (expression p))"
      by (simp add: e checksum_def)
    then show ?thesis by (rule constructor_checksum_error)
  qed
  have four: "evaluate (expression p) (checksumRequired p) (index p)
               = (if checksumRequired p then Inl (NoChecksum (expression p))
                  else substituteIndex (expression p) (index p))"
    if "k < 8" and "ch \<notin> set CHECKSUM_CHARSET"
      and e: "expression p = D @ ''#'' @ (checksum D)[k := ch]" for k ch
  proof -
    let ?cs = "(DescriptorChecksum D)[k := ch]"
    have l: "length ?cs = 8" using sh(1) by simp
    have "?cs ! k = ch" using that(1) sh(1) by simp
    then have "ch \<in> set ?cs" using that(1) l by (metis nth_mem)
    with that(2) have m: "\<not> set ?cs \<subseteq> set CHECKSUM_CHARSET" by auto
    from verifyChecksum_suffix[OF l, of D "checksumRequired p"] m show ?thesis
      by (simp add: e checksum_def evaluate_def)
  qed
  from one two three four show ?thesis by blast
qed

lemma positions_pkA:
  "indexOf INPUT_CHARSET CHR ''p'' = Some 71"
  "indexOf INPUT_CHARSET CHR ''k'' = Some 66"
  "indexOf INPUT_CHARSET CHR ''('' = Some 10"
  "indexOf INPUT_CHARSET CHR ''A'' = Some 82"
  "indexOf INPUT_CHARSET CHR '')'' = Some 11"
  by (simp_all add: INPUT_CHARSET_def)

lemma checksumLoop_pkA: "checksumLoop ''pk(A)'' (1, 0, 0) = Some (1311072843, 6, 2)"
  by (simp add: positions_pkA PolyMod_def checksumStep_def)

lemma funpow_8: "(f ^^ 8) x = f (f (f (f (f (f (f (f x)))))))"
  by (simp add: eval_nat_numeral)

lemma finish_pkA: "finish (1311072843, 6, 2) = 826696555614"
  unfolding finish_def prod.case funpow_8
  by (simp add: PolyMod_def)

lemma checksumChars_pkA: "checksumChars 826696555614 = ''cpa0ghz7''"
  by (simp add: checksumChars_def upt_conv_Cons CHECKSUM_CHARSET_def)

lemma checksum_pkA: "DescriptorChecksum ''pk(A)'' = ''cpa0ghz7''"
  unfolding DescriptorChecksum_finish checksumLoop_pkA
  by (simp add: finish_pkA checksumChars_pkA)

lemma valid_pkA: "set ''pk(A)'' \<subseteq> set INPUT_CHARSET"
  by (simp add: INPUT_CHARSET_def)

theorem checksum_validation_witness:
  "evaluate ''pk(A)#cpa0ghz7'' False None = Inr ''pk(A)''
   \<and> Descriptor_constructor (sample [] satPlain) (params ''pk(B)#cpa0ghz7'' None)
       = Inl (InvalidChecksum ''pk(B)#cpa0ghz7'')
   \<and> Descriptor_constructor (sample [] satPlain) (params ''pk(A)#cpa0ghzq'' None)
       = Inl (InvalidChecksum ''pk(A)#cpa0ghzq'')
   \<and> evaluate ''pk(A)#cpa0ghzb'' True None = Inl (NoChecksum ''pk(A)#cpa0ghzb'')"
proof -
  have a: "evaluate ''pk(A)#cpa0ghz7'' False None = Inr ''pk(A)''"
    using checksum_validation[OF valid_pkA, of "params ''pk(A)#cpa0ghz7'' None"]
    by (simp add: params_def checksum_def checksum_pkA substituteIndex_def)
  have b: "Descriptor_constructor (sample [] satPlain) (params ''pk(B)#cpa0ghz7'' None)
       = Inl (InvalidChecksum ''pk(B)#cpa0ghz7'')"
    using checksum_validation[OF valid_pkA, of "params ''pk(B)#cpa0ghz7'' None"
        "sample [] satPlain", THEN conjunct2, THEN conjunct1, rule_format, of 3 "CHR ''B''"]
    by (simp add: params_def checksum_def checksum_pkA)
  have c: "Descriptor_constructor (sample [] satPlain) (params ''pk(A)#cpa0ghzq'' None)
       = Inl (InvalidChecksum ''pk(A)#cpa0ghzq'')"
    using checksum_validation[OF valid_pkA, of "params ''pk(A)#cpa0ghzq'' None"
        "sample [] satPlain", THEN conjunct2, THEN conjunct2, THEN conjunct1, rule_format,
        of 7 "CHR ''q''"]
    by (simp add: params_def checksum_def checksum_pkA CHECKSUM_CHARSET_def)
  have d: "evaluate ''pk(A)#cpa0ghzb'' True None = Inl (NoChecksum ''pk(A)#cpa0ghzb'')"
    using checksum_validation[OF valid_pkA,
        of "(params ''pk(A)#cpa0ghzb'' None)\<lparr>checksumRequired := True\<rparr>"
        "sample [] satPlain", THEN conjunct2, THEN conjunct2, THEN conjunct2, rule_format,
        of 7 "CHR ''b''"]
    by (simp add: params_def checksum_def checksum_pkA CHECKSUM_CHARSET_def)
  from a b c d show ?thesis by blast
qed

text \<open>
  The claim as it stands fails: the checksum of \<open>pk(A)\<close> is \<open>cpa0ghz7\<close>; with its last
  character replaced by \<open>b\<close>, which is not in the checksum charset, the validation raises no
  error and the whole text goes on to the grammar dispatch, where (with the sample
  grammar) construction throws that the descriptor could not be parsed.
\<close>

theorem checksum_validation_counterexample:
  "checksum ''pk(A)'' = ''cpa0ghz7''
   \<and> evaluate ''pk(A)#cpa0ghzb'' False None = Inr ''pk(A)#cpa0ghzb''
   \<and> Descriptor_constructor (sample [] satPlain) (params ''pk(A)#cpa0ghzb'' None)
       = Inl (CouldNotParse ''pk(A)#cpa0ghzb'')"
proof -
  have e: "evaluate ''pk(A)#cpa0ghzb'' False None = Inr ''pk(A)#cpa0ghzb''"
    by (simp add: evaluate_def verifyChecksum_def matchChecksum_def CHECKSUM_CHARSET_def
          substituteIndex_def)
  have d: "dispatch (sample [] satPlain) ''pk(A)#cpa0ghzb'' = NoProduction"
    by (simp add: dispatch_def sample_fields between_def)
  from e d show ?thesis
    by (simp add: checksum_def checksum_pkA Descriptor_constructor_def params_def)
qed

end
